theory Spec2Isabelle
  imports Main
begin

section \<open>Python values\<close>

text \<open>
  A Python \<open>str\<close> is modelled by its UTF-8 encoding, a \<open>string\<close>: the literals of the
  program are ASCII, the text of a page may be in any script. The scraper compares and
  joins strings and never takes the length of one, so the only operation that looks inside
  a string is \<open>str.strip()\<close>.
\<close>

text \<open>
  The characters that \<open>str.strip()\<close> removes, encoded: U+0009 to U+000D, U+001C to U+0020,
  U+0085, U+00A0, U+1680, U+2000 to U+200A, U+2028, U+2029, U+202F, U+205F and U+3000.
\<close>

definition whitespace :: "string list" where
  "whitespace =
     [[CHR 0x09], [CHR 0x0A], [CHR 0x0B], [CHR 0x0C], [CHR 0x0D],
      [CHR 0x1C], [CHR 0x1D], [CHR 0x1E], [CHR 0x1F], [CHR 0x20],
      [CHR 0xC2, CHR 0x85], [CHR 0xC2, CHR 0xA0], [CHR 0xE1, CHR 0x9A, CHR 0x80],
      [CHR 0xE2, CHR 0x80, CHR 0x80], [CHR 0xE2, CHR 0x80, CHR 0x81],
      [CHR 0xE2, CHR 0x80, CHR 0x82], [CHR 0xE2, CHR 0x80, CHR 0x83],
      [CHR 0xE2, CHR 0x80, CHR 0x84], [CHR 0xE2, CHR 0x80, CHR 0x85],
      [CHR 0xE2, CHR 0x80, CHR 0x86], [CHR 0xE2, CHR 0x80, CHR 0x87],
      [CHR 0xE2, CHR 0x80, CHR 0x88], [CHR 0xE2, CHR 0x80, CHR 0x89],
      [CHR 0xE2, CHR 0x80, CHR 0x8A], [CHR 0xE2, CHR 0x80, CHR 0xA8],
      [CHR 0xE2, CHR 0x80, CHR 0xA9], [CHR 0xE2, CHR 0x80, CHR 0xAF],
      [CHR 0xE2, CHR 0x81, CHR 0x9F], [CHR 0xE3, CHR 0x80, CHR 0x80]]"

text \<open>Removing from the front of \<open>s\<close>, as long as there is one, a word of \<open>ws\<close>.\<close>

function strip_leading :: "string list \<Rightarrow> string \<Rightarrow> string" where
  "strip_leading ws s =
     (case List.find (\<lambda>w. w \<noteq> [] \<and> take (length w) s = w) ws of
        None \<Rightarrow> s
      | Some w \<Rightarrow> strip_leading ws (drop (length w) s))"
  by pat_completeness auto
termination
proof (relation "measure (\<lambda>(ws, s). length s)")
  show "wf (measure (\<lambda>(ws, s). length s))" by simp
next
  fix ws :: "string list" and s w :: string
  assume "List.find (\<lambda>w. w \<noteq> [] \<and> take (length w) s = w) ws = Some w"
  then have w: "w \<noteq> []" "take (length w) s = w"
    by (auto simp: find_Some_iff)
  then have "s \<noteq> []" by auto
  then show "((ws, drop (length w) s), (ws, s)) \<in> measure (\<lambda>(ws, s). length s)"
    using w(1) by simp
qed

declare strip_leading.simps [simp del]

text \<open>\<open>s.strip()\<close>: whitespace removed at both ends.\<close>

definition strip :: "string \<Rightarrow> string" where
  "strip s = rev (strip_leading (map rev whitespace) (rev (strip_leading whitespace s)))"

text \<open>
  Exceptions that the scraper does not catch are values of type \<open>error\<close>: the two that
  its own indexing can raise, and \<open>Raised\<close> for an exception that comes out of a library
  call, with its rendering.
\<close>

datatype error = KeyError string | IndexError | Raised string

definition and_then :: "error + 'a \<Rightarrow> ('a \<Rightarrow> error + 'b) \<Rightarrow> error + 'b" where
  "and_then r f = (case r of Inl e \<Rightarrow> Inl e | Inr v \<Rightarrow> f v)"

text \<open>A library call that returns a value or raises: the exception goes on uncaught.\<close>

definition library :: "string + 'a \<Rightarrow> error + 'a" where
  "library r = (case r of Inl e \<Rightarrow> Inl (Raised e) | Inr v \<Rightarrow> Inr v)"

text \<open>\<open>xs[i]\<close> for a non-negative index: IndexError out of range.\<close>

definition list_getitem :: "'a list \<Rightarrow> nat \<Rightarrow> error + 'a" where
  "list_getitem xs i = (if i < length xs then Inr (xs ! i) else Inl IndexError)"

text \<open>\<open>xs[a:b]\<close> for non-negative bounds: a slice never raises.\<close>

definition slice :: "nat \<Rightarrow> nat \<Rightarrow> 'a list \<Rightarrow> 'a list" where
  "slice a b xs = take (b - a) (drop a xs)"

text \<open>\<open>d.get(k, default)\<close> on a dictionary.\<close>

definition dict_get :: "('k \<rightharpoonup> 'v) \<Rightarrow> 'k \<Rightarrow> 'v \<Rightarrow> 'v" where
  "dict_get d k dflt = (case d k of None \<Rightarrow> dflt | Some v \<Rightarrow> v)"

section \<open>Parsed documents\<close>

text \<open>
  The tree that BeautifulSoup builds: a tag has a name, an attribute dictionary (an
  association list read with \<open>map_of\<close>) and its contents. The leaves are strings:
  \<open>NavigableString\<close> for the text of the page, \<open>Comment\<close> for a string that \<open>.text\<close>
  leaves out (a comment, a declaration). A soup is the root tag of a document. A tag, and
  so a soup, is true in a condition; only \<open>None\<close> is false.
\<close>

datatype node =
    NavigableString string
  | Comment string
  | Tag string "(string \<times> string) list" "node list"

text \<open>All nodes below a node, in document order (the order \<open>find_all\<close> walks).\<close>

fun descendants :: "node \<Rightarrow> node list" where
  "descendants (NavigableString s) = []"
| "descendants (Comment s) = []"
| "descendants (Tag name attrs contents) = concat (map (\<lambda>c. c # descendants c) contents)"

text \<open>The \<open>.text\<close> of a node: its strings joined in document order, comments left out.\<close>

fun get_text :: "node \<Rightarrow> string" where
  "get_text (NavigableString s) = s"
| "get_text (Comment s) = []"
| "get_text (Tag name attrs contents) = concat (map get_text contents)"

definition has_name :: "string \<Rightarrow> node \<Rightarrow> bool" where
  "has_name name nd = (case nd of Tag n attrs contents \<Rightarrow> n = name | _ \<Rightarrow> False)"

definition attr :: "node \<Rightarrow> string \<Rightarrow> string option" where
  "attr nd key = (case nd of Tag n attrs contents \<Rightarrow> map_of attrs key | _ \<Rightarrow> None)"

text \<open>\<open>nd.find_all(name)\<close> and \<open>nd.find(name)\<close>.\<close>

definition find_all :: "string \<Rightarrow> node \<Rightarrow> node list" where
  "find_all name nd = filter (has_name name) (descendants nd)"

definition find_tag :: "string \<Rightarrow> node \<Rightarrow> node option" where
  "find_tag name nd = List.find (has_name name) (descendants nd)"

text \<open>\<open>soup.find('table', id='t1')\<close>.\<close>

definition find_table :: "node \<Rightarrow> node option" where
  "find_table soup =
     List.find (\<lambda>nd. has_name ''table'' nd \<and> attr nd ''id'' = Some ''t1'') (descendants soup)"

text \<open>\<open>tag[key]\<close>: KeyError when the tag has no such attribute.\<close>

definition tag_getitem :: "node \<Rightarrow> string \<Rightarrow> error + string" where
  "tag_getitem nd key = (case attr nd key of None \<Rightarrow> Inl (KeyError key) | Some v \<Rightarrow> Inr v)"

section \<open>The environment\<close>

text \<open>
  What a request can do inside \<open>get_soup\<close>, in the order of its statements:
  \<open>requests.get\<close> raises a RequestException (\<open>GetRaises\<close>) or an exception of another
  class (\<open>GetAborts\<close>); \<open>raise_for_status\<close> raises its HTTPError, a RequestException
  (\<open>StatusRaises\<close>); after the delay, reading the text and building the tree raises
  (\<open>ParseAborts\<close>); or \<open>BeautifulSoup(response.text, 'html.parser')\<close> returns the tree
  (\<open>Response\<close>). The string is the rendered exception.
\<close>

datatype outcome =
    GetRaises string
  | GetAborts string
  | StatusRaises string
  | ParseAborts string
  | Response node

text \<open>
  The library functions and the outside world are parameters of the model:
  \<open>unidecode\<close>; \<open>urljoin\<close>, which returns or raises (\<open>Inl\<close> with the rendered
  exception); \<open>urlparse_raises\<close>, the ValueError of \<open>urlparse\<close> on a URL whose network
  location it rejects, if it raises one; \<open>unquote_plus\<close>, the decoding inside \<open>parse_qs\<close>;
  \<open>requests_get n url\<close>, the outcome of requesting \<open>url\<close> when \<open>n\<close> requests were made
  before in the run (the same URL may answer differently later); and \<open>to_csv_raises\<close>, the
  exception of \<open>df.to_csv\<close> for a path and a table, if it raises one.
\<close>

record env =
  unidecode :: "string \<Rightarrow> string"
  urljoin :: "string \<Rightarrow> string \<Rightarrow> string + string"
  urlparse_raises :: "string \<Rightarrow> string option"
  unquote_plus :: "string \<Rightarrow> string"
  requests_get :: "nat \<Rightarrow> string \<Rightarrow> outcome"
  to_csv_raises :: "string \<Rightarrow> string list list \<Rightarrow> string option"

section \<open>urllib.parse\<close>

text \<open>
  \<open>urlparse(url).query\<close>, after the source of the standard library: tabs and line breaks
  are removed from the URL, the fragment starts at the first \<open>#\<close>, and the query is what
  follows the first \<open>?\<close> before the fragment (scheme and network location hold neither
  character). Strings are UTF-8 encodings, in which these characters stand for themselves.
\<close>

definition urlparse_query :: "string \<Rightarrow> string" where
  "urlparse_query url =
     drop 1 (dropWhile (\<lambda>c. c \<noteq> CHR ''?'')
       (takeWhile (\<lambda>c. c \<noteq> CHR ''#'')
          (filter (\<lambda>c. c \<notin> set [CHR 0x09, CHR 0x0A, CHR 0x0D]) url)))"

text \<open>
  \<open>parse_qs(qs)\<close> with its default arguments, after the source of the standard library:
  \<open>parse_qsl\<close> splits the query at \<open>&\<close>, leaves out an empty field and a field whose
  value (the part after the first \<open>=\<close>) is empty, and decodes name and value;
  \<open>parse_qs\<close> collects the values of each name in order.
\<close>

text \<open>\<open>s.split(c)\<close> for a separator of one character, with the piece read so far.\<close>

fun split_from :: "char \<Rightarrow> string \<Rightarrow> string \<Rightarrow> string list" where
  "split_from c piece [] = [rev piece]"
| "split_from c piece (x # xs) =
     (if x = c then rev piece # split_from c [] xs else split_from c (x # piece) xs)"

definition split :: "char \<Rightarrow> string \<Rightarrow> string list" where
  "split c s = split_from c [] s"

text \<open>\<open>name, has_eq, value = name_value.partition('=')\<close>.\<close>

definition partition_name :: "string \<Rightarrow> string" where
  "partition_name name_value = takeWhile (\<lambda>c. c \<noteq> CHR ''='') name_value"

definition partition_value :: "string \<Rightarrow> string" where
  "partition_value name_value = drop 1 (dropWhile (\<lambda>c. c \<noteq> CHR ''='') name_value)"

fun parse_qsl_fields ::
  "env \<Rightarrow> string list \<Rightarrow> (string \<times> string) list \<Rightarrow> (string \<times> string) list" where
  "parse_qsl_fields E [] r = r"
| "parse_qsl_fields E (name_value # name_values) r =
     (if name_value \<noteq> [] then
        (let name = partition_name name_value; val = partition_value name_value in
         if val \<noteq> [] then
           parse_qsl_fields E name_values (r @ [(unquote_plus E name, unquote_plus E val)])
         else parse_qsl_fields E name_values r)
      else parse_qsl_fields E name_values r)"

definition parse_qsl :: "env \<Rightarrow> string \<Rightarrow> (string \<times> string) list" where
  "parse_qsl E qs = (if qs = [] then [] else parse_qsl_fields E (split CHR ''&'' qs) [])"

fun parse_qs_pairs ::
  "(string \<times> string) list \<Rightarrow> (string \<rightharpoonup> string list) \<Rightarrow> (string \<rightharpoonup> string list)" where
  "parse_qs_pairs [] parsed_result = parsed_result"
| "parse_qs_pairs ((name, val) # pairs) parsed_result =
     parse_qs_pairs pairs
       (case parsed_result name of
          Some vals \<Rightarrow> parsed_result(name \<mapsto> vals @ [val])
        | None \<Rightarrow> parsed_result(name \<mapsto> [val]))"

definition parse_qs :: "env \<Rightarrow> string \<Rightarrow> (string \<rightharpoonup> string list)" where
  "parse_qs E qs = parse_qs_pairs (parse_qsl E qs) Map.empty"

section \<open>lipi-swap.py\<close>

definition base_url :: string where
  "base_url = ''put/your/base/url/here''"

subsection \<open>extract_links\<close>

text \<open>The \<open>for row in rows\<close> loop of \<open>extract_links\<close>, with the list \<open>links\<close> it grows.\<close>

fun extract_links_rows ::
  "env \<Rightarrow> node list \<Rightarrow> (string \<times> string) list \<Rightarrow> error + (string \<times> string) list" where
  "extract_links_rows E [] links = Inr links"
| "extract_links_rows E (row # rows) links =
     (let cells = find_all ''td'' row in
      if length cells \<ge> 2 then
        and_then (list_getitem cells 1) (\<lambda>cell.
          case find_tag ''a'' cell of
            None \<Rightarrow> extract_links_rows E rows links
          | Some link_tag \<Rightarrow>
              (let name = unidecode E (strip (get_text link_tag)) in
               and_then (tag_getitem link_tag ''href'') (\<lambda>href.
               and_then (library (urljoin E base_url href)) (\<lambda>full_url.
                 extract_links_rows E rows (links @ [(name, full_url)])))))
      else extract_links_rows E rows links)"

definition extract_links :: "env \<Rightarrow> node option \<Rightarrow> error + (string \<times> string) list" where
  "extract_links E soup =
     (case soup of
        None \<Rightarrow> Inr []
      | Some doc \<Rightarrow>
          (case find_table doc of
             None \<Rightarrow> Inr []
           | Some table \<Rightarrow> extract_links_rows E (drop 4 (find_all ''tr'' table)) []))"

subsection \<open>scrape_table_data\<close>

text \<open>A leaf record is a Python dictionary: its items in insertion order.\<close>

type_synonym leaf_record = "(string \<times> string) list"

text \<open>The body of the \<open>if len(cells) >= 14\<close> branch: the dictionary that is appended.\<close>

definition scrape_row ::
  "env \<Rightarrow> node list \<Rightarrow> string \<Rightarrow> string \<Rightarrow> string \<Rightarrow> string \<Rightarrow> string \<Rightarrow> error + leaf_record" where
  "scrape_row E cells state state_id fy district block =
     and_then (list_getitem cells 1) (\<lambda>cell1.
       let panchayat = unidecode E (strip (get_text cell1));
           monthly_data = map (\<lambda>cell. strip (get_text cell)) (slice 2 14 cells) in
       and_then (list_getitem monthly_data 0) (\<lambda>april.
       and_then (list_getitem monthly_data 1) (\<lambda>may.
       and_then (list_getitem monthly_data 2) (\<lambda>june.
       and_then (list_getitem monthly_data 3) (\<lambda>july.
       and_then (list_getitem monthly_data 4) (\<lambda>august.
       and_then (list_getitem monthly_data 5) (\<lambda>september.
       and_then (list_getitem monthly_data 6) (\<lambda>october.
       and_then (list_getitem monthly_data 7) (\<lambda>november.
       and_then (list_getitem monthly_data 8) (\<lambda>december.
       and_then (list_getitem monthly_data 9) (\<lambda>january.
       and_then (list_getitem monthly_data 10) (\<lambda>february.
       and_then (list_getitem monthly_data 11) (\<lambda>march.
         Inr [(''State'', state),
              (''State ID'', state_id),
              (''FY'', fy),
              (''District'', district),
              (''Block'', block),
              (''Panchayat'', panchayat),
              (''April'', april),
              (''May'', may),
              (''June'', june),
              (''July'', july),
              (''August'', august),
              (''September'', september),
              (''October'', october),
              (''November'', november),
              (''December'', december),
              (''January'', january),
              (''February'', february),
              (''March'', march)])))))))))))))"

text \<open>The \<open>for row in rows\<close> loop of \<open>scrape_table_data\<close>, with the list \<open>data\<close> it grows.\<close>

fun scrape_table_rows ::
  "env \<Rightarrow> node list \<Rightarrow> string \<Rightarrow> string \<Rightarrow> string \<Rightarrow> string \<Rightarrow> string \<Rightarrow>
   leaf_record list \<Rightarrow> error + leaf_record list" where
  "scrape_table_rows E [] state state_id fy district block data = Inr data"
| "scrape_table_rows E (row # rows) state state_id fy district block data =
     (let cells = find_all ''td'' row in
      if length cells \<ge> 14 then
        and_then (scrape_row E cells state state_id fy district block) (\<lambda>rec.
          scrape_table_rows E rows state state_id fy district block (data @ [rec]))
      else scrape_table_rows E rows state state_id fy district block data)"

definition scrape_table_data ::
  "env \<Rightarrow> node option \<Rightarrow> string \<Rightarrow> string \<Rightarrow> string \<Rightarrow> string \<Rightarrow> string \<Rightarrow>
   error + leaf_record list" where
  "scrape_table_data E soup state state_id fy district block =
     (case soup of
        None \<Rightarrow> Inr []
      | Some doc \<Rightarrow>
          (case find_table doc of
             None \<Rightarrow> Inr []
           | Some table \<Rightarrow>
               scrape_table_rows E (drop 4 (find_all ''tr'' table))
                 state state_id fy district block []))"

subsection \<open>Effects\<close>

text \<open>
  What a run does to the outside world, in order: the requests it sends, the calls of
  \<open>time.sleep\<close> (in seconds), the lines it prints, and the file that a call of
  \<open>to_csv(path, index=False, encoding=...)\<close> has written when it returns (path,
  encoding, rows of fields). A call of \<open>to_csv\<close> that raises leaves no such file.
  \<open>print\<close> and \<open>time.sleep\<close> are taken to return.
\<close>

datatype event =
    Request string
  | Sleep nat
  | Print string
  | WriteCsv string string "string list list"

definition is_request :: "event \<Rightarrow> bool" where
  "is_request ev = (case ev of Request url \<Rightarrow> True | _ \<Rightarrow> False)"

definition is_write :: "event \<Rightarrow> bool" where
  "is_write ev = (case ev of WriteCsv path encoding table \<Rightarrow> True | _ \<Rightarrow> False)"

definition n_requests :: "event list \<Rightarrow> nat" where
  "n_requests log = length (filter is_request log)"

text \<open>\<open>str(n)\<close> for a length.\<close>

definition digit_char :: "nat \<Rightarrow> char" where
  "digit_char d = char_of (48 + d)"

fun str_nat :: "nat \<Rightarrow> string" where
  "str_nat n = (if n < 10 then [digit_char n] else str_nat (n div 10) @ [digit_char (n mod 10)])"

declare str_nat.simps [simp del]

subsection \<open>get_soup\<close>

text \<open>
  Only a RequestException is caught: any other exception leaves \<open>get_soup\<close>, and the
  result is \<open>Inl\<close>.
\<close>

definition get_soup ::
  "env \<Rightarrow> string \<Rightarrow> event list \<Rightarrow> (error + node option) \<times> event list" where
  "get_soup E url log =
     (case requests_get E (n_requests log) url of
        GetRaises e \<Rightarrow>
          (Inr None, log @ [Request url, Print (''Error fetching '' @ url @ '': '' @ e)])
      | GetAborts e \<Rightarrow>
          (Inl (Raised e), log @ [Request url])
      | StatusRaises e \<Rightarrow>
          (Inr None, log @ [Request url, Print (''Error fetching '' @ url @ '': '' @ e)])
      | ParseAborts e \<Rightarrow>
          (Inl (Raised e), log @ [Request url, Sleep 1])
      | Response soup \<Rightarrow>
          (Inr (Some soup), log @ [Request url, Sleep 1]))"

subsection \<open>main\<close>

text \<open>
  \<open>pd.DataFrame(all_data)\<close> for a list of dictionaries: the columns are the keys in
  the order of their first appearance, a missing key gives a missing value.
\<close>

record dataframe =
  df_columns :: "string list"
  df_values :: "string option list list"

definition add_key :: "string list \<Rightarrow> string \<Rightarrow> string list" where
  "add_key cols k = (if k \<in> set cols then cols else cols @ [k])"

definition DataFrame :: "leaf_record list \<Rightarrow> dataframe" where
  "DataFrame data =
     (let cols = foldl add_key [] (concat (map (map fst) data)) in
      \<lparr>df_columns = cols, df_values = map (\<lambda>d. map (map_of d) cols) data\<rparr>)"

text \<open>
  The table of \<open>df.to_csv(path, index=False)\<close>: the header row of column names, then
  one row per row of the frame, a missing value as the empty field.
\<close>

definition to_csv :: "dataframe \<Rightarrow> string list list" where
  "to_csv df = df_columns df # map (map (\<lambda>v. case v of None \<Rightarrow> [] | Some s \<Rightarrow> s)) (df_values df)"

definition output_file :: string where
  "output_file = ''put/yourr/output/path/here.csv''"

text \<open>
  Lines 87 to 91 of \<open>main\<close>: the state, its code and the fiscal year of a state URL.
  \<open>urlparse\<close> may raise on the URL.
\<close>

definition crawl_context :: "env \<Rightarrow> string \<Rightarrow> error + string \<times> string \<times> string" where
  "crawl_context E state_url =
     (case urlparse_raises E state_url of
        Some e \<Rightarrow> Inl (Raised e)
      | None \<Rightarrow>
          (let query_params = parse_qs E (urlparse_query state_url) in
           and_then (list_getitem (dict_get query_params ''state_name'' [''Unknown'']) 0) (\<lambda>state.
           and_then (list_getitem (dict_get query_params ''state_code'' [''Unknown'']) 0) (\<lambda>state_id.
           and_then (list_getitem (dict_get query_params ''fin_year'' [''Unknown'']) 0) (\<lambda>fy.
             Inr (state, state_id, fy))))))"

text \<open>
  The three nested \<open>for\<close> loops of \<open>main\<close>, innermost first. Each takes the list
  \<open>all_data\<close> and the effects so far and returns them updated; \<open>continue\<close> is the
  recursive call on the rest of the list.
\<close>

fun blocks_loop ::
  "env \<Rightarrow> string \<Rightarrow> string \<Rightarrow> string \<Rightarrow> string \<Rightarrow> (string \<times> string) list \<Rightarrow>
   leaf_record list \<Rightarrow> event list \<Rightarrow> (error + leaf_record list) \<times> event list" where
  "blocks_loop E state state_id fy district_name [] all_data log = (Inr all_data, log)"
| "blocks_loop E state state_id fy district_name ((block_name, block_url) # block_links) all_data log =
     (case get_soup E block_url
             (log @ [Print (''Processing block: '' @ block_name @ '' in '' @ district_name
                            @ '', '' @ state)]) of
        (Inl e, log1) \<Rightarrow> (Inl e, log1)
      | (Inr None, log1) \<Rightarrow>
          blocks_loop E state state_id fy district_name block_links all_data
            (log1 @ [Print (''Skipping '' @ block_name @ '' due to fetch error.'')])
      | (Inr (Some block_soup), log1) \<Rightarrow>
          (case scrape_table_data E (Some block_soup) state state_id fy district_name block_name of
             Inl e \<Rightarrow> (Inl e, log1)
           | Inr panchayat_data \<Rightarrow>
               blocks_loop E state state_id fy district_name block_links
                 (all_data @ panchayat_data)
                 (log1 @ [Print (''Collected data for '' @ str_nat (length panchayat_data)
                                 @ '' panchayats in '' @ block_name @ ''.'')])))"

fun districts_loop ::
  "env \<Rightarrow> string \<Rightarrow> string \<Rightarrow> string \<Rightarrow> (string \<times> string) list \<Rightarrow>
   leaf_record list \<Rightarrow> event list \<Rightarrow> (error + leaf_record list) \<times> event list" where
  "districts_loop E state state_id fy [] all_data log = (Inr all_data, log)"
| "districts_loop E state state_id fy ((district_name, district_url) # district_links) all_data log =
     (case get_soup E district_url
             (log @ [Print (''Processing district: '' @ district_name @ '' in '' @ state)]) of
        (Inl e, log1) \<Rightarrow> (Inl e, log1)
      | (Inr None, log1) \<Rightarrow>
          districts_loop E state state_id fy district_links all_data
            (log1 @ [Print (''Skipping '' @ district_name @ '' due to fetch error.'')])
      | (Inr (Some district_soup), log1) \<Rightarrow>
          (case extract_links E (Some district_soup) of
             Inl e \<Rightarrow> (Inl e, log1)
           | Inr block_links \<Rightarrow>
               (case blocks_loop E state state_id fy district_name block_links all_data
                       (log1 @ [Print (''Found '' @ str_nat (length block_links)
                                       @ '' blocks in '' @ district_name @ ''.'')]) of
                  (Inl e, log2) \<Rightarrow> (Inl e, log2)
                | (Inr all_data1, log2) \<Rightarrow>
                    districts_loop E state state_id fy district_links all_data1 log2)))"

fun states_loop ::
  "env \<Rightarrow> string list \<Rightarrow> leaf_record list \<Rightarrow> event list \<Rightarrow>
   (error + leaf_record list) \<times> event list" where
  "states_loop E [] all_data log = (Inr all_data, log)"
| "states_loop E (state_url # state_urls) all_data log =
     (case crawl_context E state_url of
        Inl e \<Rightarrow> (Inl e, log)
      | Inr (state, state_id, fy) \<Rightarrow>
          (case get_soup E state_url (log @ [Print (''Processing state: '' @ state)]) of
             (Inl e, log1) \<Rightarrow> (Inl e, log1)
           | (Inr None, log1) \<Rightarrow>
               states_loop E state_urls all_data
                 (log1 @ [Print (''Failed to fetch state page for '' @ state @ ''. Skipping.'')])
           | (Inr (Some state_soup), log1) \<Rightarrow>
               (case extract_links E (Some state_soup) of
                  Inl e \<Rightarrow> (Inl e, log1)
                | Inr district_links \<Rightarrow>
                    (case districts_loop E state state_id fy district_links all_data
                            (log1 @ [Print (''Found '' @ str_nat (length district_links)
                                            @ '' districts in '' @ state @ ''.'')]) of
                       (Inl e, log2) \<Rightarrow> (Inl e, log2)
                     | (Inr all_data1, log2) \<Rightarrow> states_loop E state_urls all_data1 log2))))"

text \<open>
  \<open>main\<close>, with the module's list \<open>state_urls\<close> as its argument. A run starts with no
  record and no effect; an uncaught exception ends it where it is raised, also the one of
  \<open>to_csv\<close>, after which nothing is printed.
\<close>

definition main :: "env \<Rightarrow> string list \<Rightarrow> (error + unit) \<times> event list" where
  "main E state_urls =
     (case states_loop E state_urls [] [] of
        (Inl e, log) \<Rightarrow> (Inl e, log)
      | (Inr all_data, log) \<Rightarrow>
          if all_data \<noteq> [] then
            (let df = DataFrame all_data in
             case to_csv_raises E output_file (to_csv df) of
               Some e \<Rightarrow> (Inl (Raised e), log)
             | None \<Rightarrow>
                 (Inr (), log @ [WriteCsv output_file ''utf-8'' (to_csv df),
                                 Print (''Data saved to '' @ output_file @ '' with ''
                                        @ str_nat (length (df_values df)) @ '' rows.'')]))
          else (Inr (), log @ [Print ''No data collected.'']))"

section \<open>lipi-swap-refactored.py\<close>

definition BASE_URL_PATH :: string where
  "BASE_URL_PATH = ''put/your/base/url/here''"

text \<open>\<open>if verbose: print(msg)\<close>.\<close>

definition print_if :: "bool \<Rightarrow> string \<Rightarrow> event list \<Rightarrow> event list" where
  "print_if verbose msg log = (if verbose then log @ [Print msg] else log)"

definition get_soup_refactored ::
  "env \<Rightarrow> string \<Rightarrow> bool \<Rightarrow> event list \<Rightarrow> (error + node option) \<times> event list" where
  "get_soup_refactored E url verbose log =
     (case requests_get E (n_requests log) url of
        GetRaises e \<Rightarrow>
          (Inr None,
           print_if verbose (''Error fetching '' @ url @ '': '' @ e) (log @ [Request url]))
      | GetAborts e \<Rightarrow>
          (Inl (Raised e), log @ [Request url])
      | StatusRaises e \<Rightarrow>
          (Inr None,
           print_if verbose (''Error fetching '' @ url @ '': '' @ e) (log @ [Request url]))
      | ParseAborts e \<Rightarrow>
          (Inl (Raised e), log @ [Request url, Sleep 1])
      | Response soup \<Rightarrow>
          (Inr (Some soup), log @ [Request url, Sleep 1]))"

fun extract_links_rows_refactored ::
  "env \<Rightarrow> node list \<Rightarrow> (string \<times> string) list \<Rightarrow> error + (string \<times> string) list" where
  "extract_links_rows_refactored E [] link_list = Inr link_list"
| "extract_links_rows_refactored E (row # rows) link_list =
     (let cells = find_all ''td'' row in
      if length cells \<ge> 2 then
        and_then (list_getitem cells 1) (\<lambda>cell.
          case find_tag ''a'' cell of
            None \<Rightarrow> extract_links_rows_refactored E rows link_list
          | Some link_tag \<Rightarrow>
              (let name = unidecode E (strip (get_text link_tag)) in
               and_then (tag_getitem link_tag ''href'') (\<lambda>href.
               and_then (library (urljoin E BASE_URL_PATH href)) (\<lambda>full_url.
                 extract_links_rows_refactored E rows (link_list @ [(name, full_url)])))))
      else extract_links_rows_refactored E rows link_list)"

definition extract_links_refactored ::
  "env \<Rightarrow> node option \<Rightarrow> error + (string \<times> string) list" where
  "extract_links_refactored E soup =
     (case soup of
        None \<Rightarrow> Inr []
      | Some doc \<Rightarrow>
          (case find_table doc of
             None \<Rightarrow> Inr []
           | Some table \<Rightarrow> extract_links_rows_refactored E (drop 4 (find_all ''tr'' table)) []))"

definition scrape_row_refactored ::
  "env \<Rightarrow> node list \<Rightarrow> string \<Rightarrow> string \<Rightarrow> string \<Rightarrow> string \<Rightarrow> string \<Rightarrow> error + leaf_record" where
  "scrape_row_refactored E cells state state_id fy district block =
     and_then (list_getitem cells 1) (\<lambda>cell1.
       let panchayat = unidecode E (strip (get_text cell1));
           monthly_data_list = map (\<lambda>cell. strip (get_text cell)) (slice 2 14 cells) in
       and_then (list_getitem monthly_data_list 0) (\<lambda>april.
       and_then (list_getitem monthly_data_list 1) (\<lambda>may.
       and_then (list_getitem monthly_data_list 2) (\<lambda>june.
       and_then (list_getitem monthly_data_list 3) (\<lambda>july.
       and_then (list_getitem monthly_data_list 4) (\<lambda>august.
       and_then (list_getitem monthly_data_list 5) (\<lambda>september.
       and_then (list_getitem monthly_data_list 6) (\<lambda>october.
       and_then (list_getitem monthly_data_list 7) (\<lambda>november.
       and_then (list_getitem monthly_data_list 8) (\<lambda>december.
       and_then (list_getitem monthly_data_list 9) (\<lambda>january.
       and_then (list_getitem monthly_data_list 10) (\<lambda>february.
       and_then (list_getitem monthly_data_list 11) (\<lambda>march.
         Inr [(''State'', state),
              (''State ID'', state_id),
              (''FY'', fy),
              (''District'', district),
              (''Block'', block),
              (''Panchayat'', panchayat),
              (''April'', april),
              (''May'', may),
              (''June'', june),
              (''July'', july),
              (''August'', august),
              (''September'', september),
              (''October'', october),
              (''November'', november),
              (''December'', december),
              (''January'', january),
              (''February'', february),
              (''March'', march)])))))))))))))"

fun scrape_table_rows_refactored ::
  "env \<Rightarrow> node list \<Rightarrow> string \<Rightarrow> string \<Rightarrow> string \<Rightarrow> string \<Rightarrow> string \<Rightarrow>
   leaf_record list \<Rightarrow> error + leaf_record list" where
  "scrape_table_rows_refactored E [] state state_id fy district block data_list = Inr data_list"
| "scrape_table_rows_refactored E (row # rows) state state_id fy district block data_list =
     (let cells = find_all ''td'' row in
      if length cells \<ge> 14 then
        and_then (scrape_row_refactored E cells state state_id fy district block) (\<lambda>rec.
          scrape_table_rows_refactored E rows state state_id fy district block (data_list @ [rec]))
      else scrape_table_rows_refactored E rows state state_id fy district block data_list)"

definition scrape_table_data_refactored ::
  "env \<Rightarrow> node option \<Rightarrow> string \<Rightarrow> string \<Rightarrow> string \<Rightarrow> string \<Rightarrow> string \<Rightarrow>
   error + leaf_record list" where
  "scrape_table_data_refactored E soup state state_id fy district block =
     (case soup of
        None \<Rightarrow> Inr []
      | Some doc \<Rightarrow>
          (case find_table doc of
             None \<Rightarrow> Inr []
           | Some table \<Rightarrow>
               scrape_table_rows_refactored E (drop 4 (find_all ''tr'' table))
                 state state_id fy district block []))"

definition output_path :: string where
  "output_path = ''put/your/output/path/here.csv''"

fun blocks_loop_refactored ::
  "env \<Rightarrow> bool \<Rightarrow> string \<Rightarrow> string \<Rightarrow> string \<Rightarrow> string \<Rightarrow> (string \<times> string) list \<Rightarrow>
   leaf_record list \<Rightarrow> event list \<Rightarrow> (error + leaf_record list) \<times> event list" where
  "blocks_loop_refactored E verbose state state_id fy district_name [] all_data_list log =
     (Inr all_data_list, log)"
| "blocks_loop_refactored E verbose state state_id fy district_name
       ((block_name, block_url) # block_link_list) all_data_list log =
     (case get_soup_refactored E block_url verbose
             (print_if verbose (''Processing block: '' @ block_name @ '' in '' @ district_name
                                @ '', '' @ state) log) of
        (Inl e, log1) \<Rightarrow> (Inl e, log1)
      | (Inr None, log1) \<Rightarrow>
          blocks_loop_refactored E verbose state state_id fy district_name block_link_list
            all_data_list
            (print_if verbose (''Skipping '' @ block_name @ '' due to fetch error.'') log1)
      | (Inr (Some block_soup), log1) \<Rightarrow>
          (case scrape_table_data_refactored E (Some block_soup) state state_id fy
                  district_name block_name of
             Inl e \<Rightarrow> (Inl e, log1)
           | Inr panchayat_data_list \<Rightarrow>
               blocks_loop_refactored E verbose state state_id fy district_name block_link_list
                 (all_data_list @ panchayat_data_list)
                 (print_if verbose (''Collected data for '' @ str_nat (length panchayat_data_list)
                                    @ '' panchayats in '' @ block_name @ ''.'') log1)))"

fun districts_loop_refactored ::
  "env \<Rightarrow> bool \<Rightarrow> string \<Rightarrow> string \<Rightarrow> string \<Rightarrow> (string \<times> string) list \<Rightarrow>
   leaf_record list \<Rightarrow> event list \<Rightarrow> (error + leaf_record list) \<times> event list" where
  "districts_loop_refactored E verbose state state_id fy [] all_data_list log =
     (Inr all_data_list, log)"
| "districts_loop_refactored E verbose state state_id fy
       ((district_name, district_url) # district_link_list) all_data_list log =
     (case get_soup_refactored E district_url verbose
             (print_if verbose (''Processing district: '' @ district_name @ '' in '' @ state) log) of
        (Inl e, log1) \<Rightarrow> (Inl e, log1)
      | (Inr None, log1) \<Rightarrow>
          districts_loop_refactored E verbose state state_id fy district_link_list all_data_list
            (print_if verbose (''Skipping '' @ district_name @ '' due to fetch error.'') log1)
      | (Inr (Some district_soup), log1) \<Rightarrow>
          (case extract_links_refactored E (Some district_soup) of
             Inl e \<Rightarrow> (Inl e, log1)
           | Inr block_link_list \<Rightarrow>
               (case blocks_loop_refactored E verbose state state_id fy district_name
                       block_link_list all_data_list
                       (print_if verbose (''Found '' @ str_nat (length block_link_list)
                                          @ '' blocks in '' @ district_name @ ''.'') log1) of
                  (Inl e, log2) \<Rightarrow> (Inl e, log2)
                | (Inr all_data_list1, log2) \<Rightarrow>
                    districts_loop_refactored E verbose state state_id fy district_link_list
                      all_data_list1 log2)))"

fun states_loop_refactored ::
  "env \<Rightarrow> bool \<Rightarrow> string list \<Rightarrow> leaf_record list \<Rightarrow> event list \<Rightarrow>
   (error + leaf_record list) \<times> event list" where
  "states_loop_refactored E verbose [] all_data_list log = (Inr all_data_list, log)"
| "states_loop_refactored E verbose (state_url # state_url_list) all_data_list log =
     (case crawl_context E state_url of
        Inl e \<Rightarrow> (Inl e, log)
      | Inr (state, state_id, fy) \<Rightarrow>
          (case get_soup_refactored E state_url verbose
                  (print_if verbose (''Processing state: '' @ state) log) of
             (Inl e, log1) \<Rightarrow> (Inl e, log1)
           | (Inr None, log1) \<Rightarrow>
               states_loop_refactored E verbose state_url_list all_data_list
                 (print_if verbose (''Failed to fetch state page for '' @ state @ ''. Skipping.'')
                    log1)
           | (Inr (Some state_soup), log1) \<Rightarrow>
               (case extract_links_refactored E (Some state_soup) of
                  Inl e \<Rightarrow> (Inl e, log1)
                | Inr district_link_list \<Rightarrow>
                    (case districts_loop_refactored E verbose state state_id fy
                            district_link_list all_data_list
                            (print_if verbose (''Found '' @ str_nat (length district_link_list)
                                               @ '' districts in '' @ state @ ''.'') log1) of
                       (Inl e, log2) \<Rightarrow> (Inl e, log2)
                     | (Inr all_data_list1, log2) \<Rightarrow>
                         states_loop_refactored E verbose state_url_list all_data_list1 log2))))"

definition main_refactored :: "env \<Rightarrow> string list \<Rightarrow> bool \<Rightarrow> (error + unit) \<times> event list" where
  "main_refactored E state_url_list verbose =
     (case states_loop_refactored E verbose state_url_list [] [] of
        (Inl e, log) \<Rightarrow> (Inl e, log)
      | (Inr all_data_list, log) \<Rightarrow>
          if all_data_list \<noteq> [] then
            (let df_panchayat = DataFrame all_data_list in
             case to_csv_raises E output_path (to_csv df_panchayat) of
               Some e \<Rightarrow> (Inl (Raised e), log)
             | None \<Rightarrow>
                 (Inr (),
                  print_if verbose (''Data saved to '' @ output_path @ '' with ''
                                    @ str_nat (length (df_values df_panchayat)) @ '' rows.'')
                    (log @ [WriteCsv output_path ''utf-8'' (to_csv df_panchayat)])))
          else (Inr (), print_if verbose ''No data collected.'' log))"

section \<open>Specifications\<close>

subsection \<open>What the extractors return\<close>

text \<open>
  The record of a row, as the specification words it: the five context fields, the
  transliterated, trimmed text of the second cell, and the trimmed texts of cells 3 to 14
  (indices 2 to 13) paired in order with the month names from April to March.
\<close>

definition month_names :: "string list" where
  "month_names = [''April'', ''May'', ''June'', ''July'', ''August'', ''September'',
                  ''October'', ''November'', ''December'', ''January'', ''February'', ''March'']"

definition leaf_record_spec ::
  "env \<Rightarrow> node list \<Rightarrow> string \<Rightarrow> string \<Rightarrow> string \<Rightarrow> string \<Rightarrow> string \<Rightarrow> leaf_record" where
  "leaf_record_spec E cells state state_id fy district block =
     [(''State'', state), (''State ID'', state_id), (''FY'', fy),
      (''District'', district), (''Block'', block),
      (''Panchayat'', unidecode E (strip (get_text (cells ! 1))))]
     @ zip month_names (map (\<lambda>i. strip (get_text (cells ! i))) [2..<14])"

text \<open>One record per row after the first four that has at least 14 cells, in row order.\<close>

definition scrape_spec ::
  "env \<Rightarrow> node \<Rightarrow> string \<Rightarrow> string \<Rightarrow> string \<Rightarrow> string \<Rightarrow> string \<Rightarrow> leaf_record list" where
  "scrape_spec E doc state state_id fy district block =
     (case find_table doc of
        None \<Rightarrow> []
      | Some table \<Rightarrow>
          map (\<lambda>row. leaf_record_spec E (find_all ''td'' row) state state_id fy district block)
            (filter (\<lambda>row. 14 \<le> length (find_all ''td'' row)) (drop 4 (find_all ''tr'' table))))"

text \<open>
  The hyperlink of a row: the first \<open>a\<close> element inside the second cell, when the row
  has at least two cells. The pair of a row is the transliterated, trimmed text of that
  element and what \<open>urljoin\<close> returns for the base URL and its href; a row gives no
  pair when it has no hyperlink.
\<close>

definition row_link :: "node \<Rightarrow> node option" where
  "row_link row =
     (let cells = find_all ''td'' row in
      if 2 \<le> length cells then find_tag ''a'' (cells ! 1) else None)"

definition link_pair :: "env \<Rightarrow> node \<Rightarrow> (string \<times> string) option" where
  "link_pair E row =
     (case row_link row of
        None \<Rightarrow> None
      | Some a \<Rightarrow>
          (case attr a ''href'' of
             None \<Rightarrow> None
           | Some href \<Rightarrow>
               (case urljoin E base_url href of
                  Inl e \<Rightarrow> None
                | Inr full_url \<Rightarrow> Some (unidecode E (strip (get_text a)), full_url))))"

definition link_pairs_spec :: "env \<Rightarrow> node \<Rightarrow> (string \<times> string) list" where
  "link_pairs_spec E table = List.map_filter (link_pair E) (drop 4 (find_all ''tr'' table))"

text \<open>
  The precondition of \<open>extract_links\<close>: every hyperlink that it finds in the rows
  after the first four has an href attribute.
\<close>

definition href_present :: "node \<Rightarrow> bool" where
  "href_present row = (case row_link row of None \<Rightarrow> True | Some a \<Rightarrow> attr a ''href'' \<noteq> None)"

definition hrefs_present :: "node \<Rightarrow> bool" where
  "hrefs_present doc =
     (case find_table doc of
        None \<Rightarrow> True
      | Some table \<Rightarrow> list_all href_present (drop 4 (find_all ''tr'' table)))"

text \<open>
  \<open>urljoin\<close> returns on the href of every hyperlink that \<open>extract_links\<close> finds in
  the rows after the first four.
\<close>

definition href_resolves :: "env \<Rightarrow> node \<Rightarrow> bool" where
  "href_resolves E row =
     (case row_link row of
        None \<Rightarrow> True
      | Some a \<Rightarrow>
          (case attr a ''href'' of
             None \<Rightarrow> True
           | Some href \<Rightarrow> (case urljoin E base_url href of Inl e \<Rightarrow> False | Inr u \<Rightarrow> True)))"

definition hrefs_resolve :: "env \<Rightarrow> node \<Rightarrow> bool" where
  "hrefs_resolve E doc =
     (case find_table doc of
        None \<Rightarrow> True
      | Some table \<Rightarrow> list_all (href_resolves E) (drop 4 (find_all ''tr'' table)))"

text \<open>
  An absolute URL starts with a scheme and a colon: a letter, then letters, digits,
  \<open>+\<close>, \<open>-\<close> or \<open>.\<close> (RFC 3986).
\<close>

definition absolute_url :: "string \<Rightarrow> bool" where
  "absolute_url url =
     (case takeWhile (\<lambda>c. c \<noteq> CHR '':'') url of
        [] \<Rightarrow> False
      | c # cs \<Rightarrow>
          c \<in> set ''abcdefghijklmnopqrstuvwxyzABCDEFGHIJKLMNOPQRSTUVWXYZ''
          \<and> list_all
               (\<lambda>d. d \<in> set ''abcdefghijklmnopqrstuvwxyzABCDEFGHIJKLMNOPQRSTUVWXYZ0123456789+-.'')
               cs
          \<and> length (c # cs) < length url)"

subsection \<open>Fetch outcomes\<close>

text \<open>
  A fetch fails when \<open>requests.get\<close> or \<open>raise_for_status\<close> raises a
  RequestException, which \<open>get_soup\<close> catches; it aborts when an exception of another
  class is raised, which \<open>get_soup\<close> does not catch. The text is that of the exception.
\<close>

definition fetch_failed :: "outcome \<Rightarrow> bool" where
  "fetch_failed out = (case out of GetRaises e \<Rightarrow> True | StatusRaises e \<Rightarrow> True | _ \<Rightarrow> False)"

definition fetch_aborted :: "outcome \<Rightarrow> bool" where
  "fetch_aborted out = (case out of GetAborts e \<Rightarrow> True | ParseAborts e \<Rightarrow> True | _ \<Rightarrow> False)"

definition exception_text :: "outcome \<Rightarrow> string" where
  "exception_text out =
     (case out of
        GetRaises e \<Rightarrow> e
      | GetAborts e \<Rightarrow> e
      | StatusRaises e \<Rightarrow> e
      | ParseAborts e \<Rightarrow> e
      | Response soup \<Rightarrow> [])"

text \<open>
  The pages that a crawl can reach do not end it: no request of a block link aborts; a
  request of a district link does not abort, and a page it answers with gives links, each
  to such a block; a state URL has a context, its request does not abort, and a page it
  answers with gives links, each to such a district. Nothing is asked of the content of a
  block page, and a fetch may fail anywhere.
\<close>

definition block_ok :: "env \<Rightarrow> string \<times> string \<Rightarrow> bool" where
  "block_ok E block_link = (\<forall>n. \<not> fetch_aborted (requests_get E n (snd block_link)))"

definition district_ok :: "env \<Rightarrow> string \<times> string \<Rightarrow> bool" where
  "district_ok E district_link =
     (\<forall>n. case requests_get E n (snd district_link) of
             Response soup \<Rightarrow>
               (case extract_links E (Some soup) of
                  Inl e \<Rightarrow> False
                | Inr block_links \<Rightarrow> list_all (block_ok E) block_links)
           | GetAborts e \<Rightarrow> False
           | ParseAborts e \<Rightarrow> False
           | _ \<Rightarrow> True)"

definition state_ok :: "env \<Rightarrow> string \<Rightarrow> bool" where
  "state_ok E state_url =
     ((\<exists>ctx. crawl_context E state_url = Inr ctx)
      \<and> (\<forall>n. case requests_get E n state_url of
                Response soup \<Rightarrow>
                  (case extract_links E (Some soup) of
                     Inl e \<Rightarrow> False
                   | Inr district_links \<Rightarrow> list_all (district_ok E) district_links)
              | GetAborts e \<Rightarrow> False
              | ParseAborts e \<Rightarrow> False
              | _ \<Rightarrow> True))"

subsection \<open>The output table\<close>

text \<open>The 18 columns, and the collections all of whose records have exactly these keys in this order.\<close>

definition csv_columns :: "string list" where
  "csv_columns = [''State'', ''State ID'', ''FY'', ''District'', ''Block'', ''Panchayat'',
                  ''April'', ''May'', ''June'', ''July'', ''August'', ''September'',
                  ''October'', ''November'', ''December'', ''January'', ''February'', ''March'']"

definition keys_ok :: "leaf_record list \<Rightarrow> bool" where
  "keys_ok data = (\<forall>r \<in> set data. map fst r = csv_columns)"

definition keys_ok_result :: "(error + leaf_record list) \<times> event list \<Rightarrow> bool" where
  "keys_ok_result res = (case fst res of Inl e \<Rightarrow> True | Inr data \<Rightarrow> keys_ok data)"

subsection \<open>Query parameters\<close>

text \<open>
  The values of a query parameter in a URL: the decoded values of the fields of the query
  (separated by \<open>&\<close>) that have this decoded name before the first \<open>=\<close> and a
  non-empty value after it, in order. The parameter of the crawl context is the first of
  them, and the placeholder when there is none.
\<close>

definition param_values :: "env \<Rightarrow> string \<Rightarrow> string \<Rightarrow> string list" where
  "param_values E state_url k =
     map (\<lambda>name_value. unquote_plus E (partition_value name_value))
       (filter (\<lambda>name_value. partition_value name_value \<noteq> []
                  \<and> unquote_plus E (partition_name name_value) = k)
          (split CHR ''&'' (urlparse_query state_url)))"

definition param_or_unknown :: "env \<Rightarrow> string \<Rightarrow> string \<Rightarrow> string" where
  "param_or_unknown E state_url k =
     (case param_values E state_url k of [] \<Rightarrow> ''Unknown'' | v # vs \<Rightarrow> v)"

subsection \<open>Crawl paths\<close>

text \<open>The five ancestor fields of a record.\<close>

definition ancestor_fields :: "leaf_record \<Rightarrow> string option list" where
  "ancestor_fields r = map (map_of r) [''State'', ''State ID'', ''FY'', ''District'', ''Block'']"

text \<open>
  A record comes from a block link when a request of its URL, the \<open>m\<close>-th of the run
  with \<open>n \<le> m\<close>, answered with a page whose scraping under this context gives the
  record; from a district link when a request of its URL answered with a page that lists a
  block link the record comes from, requested later; from a state URL likewise, under the
  context read from that URL.
\<close>

definition from_block ::
  "env \<Rightarrow> nat \<Rightarrow> string \<Rightarrow> string \<Rightarrow> string \<Rightarrow> string \<Rightarrow> string \<times> string \<Rightarrow> leaf_record \<Rightarrow> bool" where
  "from_block E n state state_id fy district_name block_link r =
     (\<exists>m soup recs. n \<le> m
        \<and> requests_get E m (snd block_link) = Response soup
        \<and> scrape_table_data E (Some soup) state state_id fy district_name (fst block_link) = Inr recs
        \<and> r \<in> set recs
        \<and> ancestor_fields r = [Some state, Some state_id, Some fy, Some district_name,
                                Some (fst block_link)])"

definition from_district ::
  "env \<Rightarrow> nat \<Rightarrow> string \<Rightarrow> string \<Rightarrow> string \<Rightarrow> string \<times> string \<Rightarrow> leaf_record \<Rightarrow> bool" where
  "from_district E n state state_id fy district_link r =
     (\<exists>m soup block_links. n \<le> m
        \<and> requests_get E m (snd district_link) = Response soup
        \<and> extract_links E (Some soup) = Inr block_links
        \<and> (\<exists>block_link \<in> set block_links.
              from_block E (Suc m) state state_id fy (fst district_link) block_link r))"

definition from_state :: "env \<Rightarrow> string \<Rightarrow> leaf_record \<Rightarrow> bool" where
  "from_state E state_url r =
     (\<exists>state state_id fy m soup district_links.
        crawl_context E state_url = Inr (state, state_id, fy)
        \<and> requests_get E m state_url = Response soup
        \<and> extract_links E (Some soup) = Inr district_links
        \<and> (\<exists>district_link \<in> set district_links.
              from_district E (Suc m) state state_id fy district_link r))"

text \<open>
  What a block link, a district link and a state URL contribute to the collection, in
  order: nothing when the fetch failed, else the records scraped from the page of the block,
  the contributions of the block links of the district page one after the other, and the
  contributions of the district links of the state page one after the other.
\<close>

definition block_yield ::
  "env \<Rightarrow> string \<Rightarrow> string \<Rightarrow> string \<Rightarrow> string \<Rightarrow> string \<times> string \<Rightarrow> leaf_record list \<Rightarrow> bool" where
  "block_yield E state state_id fy district_name block_link recs =
     (\<exists>m. (fetch_failed (requests_get E m (snd block_link)) \<and> recs = [])
        \<or> (\<exists>soup. requests_get E m (snd block_link) = Response soup
              \<and> scrape_table_data E (Some soup) state state_id fy district_name (fst block_link)
                  = Inr recs))"

definition district_yield ::
  "env \<Rightarrow> string \<Rightarrow> string \<Rightarrow> string \<Rightarrow> string \<times> string \<Rightarrow> leaf_record list \<Rightarrow> bool" where
  "district_yield E state state_id fy district_link recs =
     (\<exists>m. (fetch_failed (requests_get E m (snd district_link)) \<and> recs = [])
        \<or> (\<exists>soup block_links chunks.
              requests_get E m (snd district_link) = Response soup
              \<and> extract_links E (Some soup) = Inr block_links
              \<and> list_all2 (block_yield E state state_id fy (fst district_link)) block_links chunks
              \<and> recs = concat chunks))"

definition state_yield :: "env \<Rightarrow> string \<Rightarrow> leaf_record list \<Rightarrow> bool" where
  "state_yield E state_url recs =
     (\<exists>state state_id fy m.
        crawl_context E state_url = Inr (state, state_id, fy)
        \<and> ((fetch_failed (requests_get E m state_url) \<and> recs = [])
           \<or> (\<exists>soup district_links chunks.
                 requests_get E m state_url = Response soup
                 \<and> extract_links E (Some soup) = Inr district_links
                 \<and> list_all2 (district_yield E state state_id fy) district_links chunks
                 \<and> recs = concat chunks)))"

text \<open>
  The collection in closed form, for a network whose answers do not change during the run:
  state-list order, then the order of the extracted links at each level.
\<close>

definition block_records ::
  "env \<Rightarrow> string \<Rightarrow> string \<Rightarrow> string \<Rightarrow> string \<Rightarrow> string \<times> string \<Rightarrow> leaf_record list" where
  "block_records E state state_id fy district_name block_link =
     (case requests_get E 0 (snd block_link) of
        Response soup \<Rightarrow>
          (case scrape_table_data E (Some soup) state state_id fy district_name (fst block_link) of
             Inr recs \<Rightarrow> recs
           | Inl e \<Rightarrow> [])
      | _ \<Rightarrow> [])"

definition district_records ::
  "env \<Rightarrow> string \<Rightarrow> string \<Rightarrow> string \<Rightarrow> string \<times> string \<Rightarrow> leaf_record list" where
  "district_records E state state_id fy district_link =
     (case requests_get E 0 (snd district_link) of
        Response soup \<Rightarrow>
          (case extract_links E (Some soup) of
             Inr block_links \<Rightarrow>
               concat (map (block_records E state state_id fy (fst district_link)) block_links)
           | Inl e \<Rightarrow> [])
      | _ \<Rightarrow> [])"

definition state_records :: "env \<Rightarrow> string \<Rightarrow> leaf_record list" where
  "state_records E state_url =
     (case crawl_context E state_url of
        Inl e \<Rightarrow> []
      | Inr (state, state_id, fy) \<Rightarrow>
          (case requests_get E 0 state_url of
             Response soup \<Rightarrow>
               (case extract_links E (Some soup) of
                  Inr district_links \<Rightarrow>
                    concat (map (district_records E state state_id fy) district_links)
                | Inl e \<Rightarrow> [])
           | _ \<Rightarrow> []))"

definition crawl_spec :: "env \<Rightarrow> string list \<Rightarrow> leaf_record list" where
  "crawl_spec E state_urls = concat (map (state_records E) state_urls)"

definition static_web :: "env \<Rightarrow> bool" where
  "static_web E = (\<forall>n. requests_get E n = requests_get E 0)"

subsection \<open>Comparing the two files\<close>

text \<open>
  The effects of a run without its printed lines, the same effect with the output path of
  lipi-swap.py replaced by that of lipi-swap-refactored.py, and two loop results that agree
  up to printed lines.
\<close>

definition is_print :: "event \<Rightarrow> bool" where
  "is_print ev = (case ev of Print msg \<Rightarrow> True | _ \<Rightarrow> False)"

definition quiet :: "event list \<Rightarrow> event list" where
  "quiet log = filter (\<lambda>ev. \<not> is_print ev) log"

definition retarget :: "event \<Rightarrow> event" where
  "retarget ev =
     (case ev of
        WriteCsv path encoding table \<Rightarrow>
          WriteCsv (if path = output_file then output_path else path) encoding table
      | _ \<Rightarrow> ev)"

definition same_run ::
  "(error + leaf_record list) \<times> event list \<Rightarrow> (error + leaf_record list) \<times> event list \<Rightarrow> bool" where
  "same_run a b = (fst a = fst b \<and> quiet (snd a) = quiet (snd b))"

section \<open>Sample pages\<close>

text \<open>
  A small site: a state page that links two districts, a district page that links two
  blocks, a block page with one data row of 14 cells and one short row. The second block
  answers with an HTTP error and the second district cannot be reached. A second state
  page links first a district at \<open>http://a..b/\<close>, on which \<open>requests.get\<close> raises
  LocationParseError. On the names of the sample \<open>unidecode\<close> is the identity;
  \<open>urljoin\<close> returns an absolute link as it is, puts a relative one in the place of the
  last segment of the base, and raises on \<open>http://[::1\<close>; \<open>urlparse\<close> raises on
  \<open>http://[::1/s?state_name=UP\<close>; \<open>to_csv\<close> returns, and raises OSError in the
  second environment, where the directory of the output path does not exist.
\<close>

definition header_rows :: "node list" where
  "header_rows = replicate 4 (Tag ''tr'' [] [Tag ''th'' [] [NavigableString ''Header'']])"

definition page :: "node list \<Rightarrow> node" where
  "page rows = Tag ''[document]'' [] [Tag ''table'' [(''id'', ''t1'')] (header_rows @ rows)]"

definition link_row :: "string \<Rightarrow> string \<Rightarrow> node" where
  "link_row name url =
     Tag ''tr'' []
       [Tag ''td'' [] [NavigableString ''1''],
        Tag ''td'' [] [Tag ''a'' [(''href'', url)] [NavigableString name]]]"

definition data_row :: "string list \<Rightarrow> node" where
  "data_row texts = Tag ''tr'' [] (map (\<lambda>s. Tag ''td'' [] [NavigableString s]) texts)"

definition sample_state_url :: string where
  "sample_state_url = ''http://h/s?state_name=UP&state_code=09&fin_year=2023-24''"

definition sample_state_page :: node where
  "sample_state_page = page [link_row '' Agra '' ''http://h/d1'', link_row ''Mathura'' ''http://h/d2'']"

definition sample_district_page :: node where
  "sample_district_page = page [link_row ''Bah'' ''http://h/b1'', link_row ''Etmadpur'' ''http://h/b2'']"

definition sample_block_page :: node where
  "sample_block_page =
     page [data_row [''1'', '' Rampur '', ''100'', ''110'', ''120'', ''130'', ''140'', ''150'',
                     ''160'', ''170'', ''180'', ''190'', ''200'', ''210''],
           data_row [''Total'', ''1'']]"

definition sample_plain_page :: node where
  "sample_plain_page = Tag ''[document]'' [] [Tag ''p'' [] [NavigableString ''No data'']]"

definition sample_nohref_page :: node where
  "sample_nohref_page =
     page [Tag ''tr'' []
             [Tag ''td'' [] [NavigableString ''1''],
              Tag ''td'' [] [Tag ''a'' [(''name'', ''agra'')] [NavigableString ''Agra'']]]]"

definition sample_relative_page :: node where
  "sample_relative_page = page [link_row ''Agra'' ''d1.aspx'']"

definition sample_bracket_page :: node where
  "sample_bracket_page = page [link_row ''Agra'' ''http://[::1'']"

definition sample_bad_state_page :: node where
  "sample_bad_state_page = page [link_row ''Bad'' ''http://a..b/'', link_row ''Agra'' ''http://h/d1'']"

definition sample_web :: "string \<Rightarrow> outcome" where
  "sample_web url =
     (if url = sample_state_url then Response sample_state_page
      else if url = ''http://h/d1'' then Response sample_district_page
      else if url = ''http://h/b1'' then Response sample_block_page
      else if url = ''http://h/b2'' then StatusRaises ''404 Client Error''
      else if url = ''http://h/t?state_name=MP'' then Response sample_bad_state_page
      else if url = ''http://a..b/'' then GetAborts ''LocationParseError''
      else if url = ''http://h/bad'' then ParseAborts ''ParserRejectedMarkup''
      else GetRaises ''Connection refused'')"

definition sample_urljoin :: "string \<Rightarrow> string \<Rightarrow> string + string" where
  "sample_urljoin base href =
     (if href = ''http://[::1'' then Inl ''ValueError: Invalid IPv6 URL''
      else if absolute_url href then Inr href
      else Inr (rev (dropWhile (\<lambda>c. c \<noteq> CHR ''/'') (rev base)) @ href))"

definition sample_urlparse_raises :: "string \<Rightarrow> string option" where
  "sample_urlparse_raises url =
     (if url = ''http://[::1/s?state_name=UP'' then Some ''ValueError: Invalid IPv6 URL''
      else None)"

definition sample_env :: env where
  "sample_env =
     \<lparr>unidecode = (\<lambda>s. s),
      urljoin = sample_urljoin,
      urlparse_raises = sample_urlparse_raises,
      unquote_plus = (\<lambda>s. s),
      requests_get = (\<lambda>n. sample_web),
      to_csv_raises = (\<lambda>path table. None)\<rparr>"

definition sample_env_no_directory :: env where
  "sample_env_no_directory =
     sample_env\<lparr>to_csv_raises :=
       (\<lambda>path table. Some ''OSError: Cannot save file into a non-existent directory'')\<rparr>"

definition sample_record :: leaf_record where
  "sample_record =
     [(''State'', ''UP''), (''State ID'', ''09''), (''FY'', ''2023-24''),
      (''District'', ''Agra''), (''Block'', ''Bah''), (''Panchayat'', ''Rampur''),
      (''April'', ''100''), (''May'', ''110''), (''June'', ''120''), (''July'', ''130''),
      (''August'', ''140''), (''September'', ''150''), (''October'', ''160''),
      (''November'', ''170''), (''December'', ''180''), (''January'', ''190''),
      (''February'', ''200''), (''March'', ''210'')]"

definition sample_log :: "event list" where
  "sample_log =
     [Print ''Processing state: UP'',
      Request ''http://h/s?state_name=UP&state_code=09&fin_year=2023-24'',
      Sleep 1,
      Print ''Found 2 districts in UP.'',
      Print ''Processing district: Agra in UP'',
      Request ''http://h/d1'',
      Sleep 1,
      Print ''Found 2 blocks in Agra.'',
      Print ''Processing block: Bah in Agra, UP'',
      Request ''http://h/b1'',
      Sleep 1,
      Print ''Collected data for 1 panchayats in Bah.'',
      Print ''Processing block: Etmadpur in Agra, UP'',
      Request ''http://h/b2'',
      Print ''Error fetching http://h/b2: 404 Client Error'',
      Print ''Skipping Etmadpur due to fetch error.'',
      Print ''Processing district: Mathura in UP'',
      Request ''http://h/d2'',
      Print ''Error fetching http://h/d2: Connection refused'',
      Print ''Skipping Mathura due to fetch error.'']"

definition sample_table :: "string list list" where
  "sample_table =
     [[''State'', ''State ID'', ''FY'', ''District'', ''Block'', ''Panchayat'', ''April'',
       ''May'', ''June'', ''July'', ''August'', ''September'', ''October'', ''November'',
       ''December'', ''January'', ''February'', ''March''],
      [''UP'', ''09'', ''2023-24'', ''Agra'', ''Bah'', ''Rampur'', ''100'', ''110'', ''120'',
       ''130'', ''140'', ''150'', ''160'', ''170'', ''180'', ''190'', ''200'', ''210'']]"

section \<open>The leaf data extractor\<close>

lemma list_getitem_in: "i < length xs \<Longrightarrow> list_getitem xs i = Inr (xs ! i)"
  by (simp add: list_getitem_def)

lemma upt_2_14: "[2..<14] = [2,3,4,5,6,7,8,9,10,11,12,13::nat]"
  by simp

lemma scrape_row_eq:
  assumes "14 \<le> length cells"
  shows "scrape_row E cells state state_id fy district block
         = Inr (leaf_record_spec E cells state state_id fy district block)"
  using assms
  by (simp add: scrape_row_def leaf_record_spec_def and_then_def list_getitem_in slice_def
        Let_def upt_2_14 month_names_def)

lemma scrape_table_rows_eq:
  "scrape_table_rows E rows state state_id fy district block data
   = Inr (data @ map (\<lambda>row. leaf_record_spec E (find_all ''td'' row) state state_id fy district block)
            (filter (\<lambda>row. 14 \<le> length (find_all ''td'' row)) rows))"
  by (induction rows arbitrary: data) (simp_all add: Let_def scrape_row_eq and_then_def)

text \<open>
  \<open>scrape_table_data\<close> never raises: the guard \<open>len(cells) >= 14\<close> keeps every index
  in range, and the loop builds the records of the specification.
\<close>

lemma scrape_table_data_eq:
  "scrape_table_data E (Some doc) state state_id fy district block
   = Inr (scrape_spec E doc state state_id fy district block)"
  by (simp add: scrape_table_data_def scrape_spec_def scrape_table_rows_eq split: option.split)

text \<open>
  Claim C1. For every parsed block page, \<open>scrape_table_data\<close> returns one record per
  row after the first four that has at least 14 cells: the Panchayat is the transliterated,
  trimmed text of the second cell, and the trimmed texts of cells 3 to 14 are the values of
  April, May, ..., December, January, February, March, in this order. A row with fewer than
  14 cells gives no record.
\<close>

theorem scrape_table_data_records:
  "scrape_table_data E (Some doc) state state_id fy district block
   = Inr (scrape_spec E doc state state_id fy district block)"
  by (rule scrape_table_data_eq)

text \<open>
  The block page of the sample, with the values 100 to 210 in cells 3 to 14 and a second
  row of two cells, gives the single record with April = 100 up to March = 210.
\<close>

theorem scrape_table_data_records_witness:
  "scrape_table_data sample_env (Some sample_block_page) ''UP'' ''09'' ''2023-24'' ''Agra'' ''Bah''
   = Inr [sample_record]"
proof -
  have "scrape_spec sample_env sample_block_page ''UP'' ''09'' ''2023-24'' ''Agra'' ''Bah''
        = [sample_record]"
    by code_simp
  then show ?thesis
    using scrape_table_data_records [of sample_env sample_block_page "''UP''" "''09''"
        "''2023-24''" "''Agra''" "''Bah''"]
    by simp
qed

section \<open>The link extractor\<close>

lemma extract_links_rows_step:
  "extract_links_rows E (row # rows) links =
     (case row_link row of
        None \<Rightarrow> extract_links_rows E rows links
      | Some a \<Rightarrow>
          (case attr a ''href'' of
             None \<Rightarrow> Inl (KeyError ''href'')
           | Some href \<Rightarrow>
               (case urljoin E base_url href of
                  Inl e \<Rightarrow> Inl (Raised e)
                | Inr full_url \<Rightarrow>
                    extract_links_rows E rows
                      (links @ [(unidecode E (strip (get_text a)), full_url)]))))"
  by (auto simp: Let_def and_then_def library_def list_getitem_def tag_getitem_def
        row_link_def split: option.splits sum.splits)

lemma extract_links_rows_ok:
  "list_all href_present rows \<Longrightarrow> list_all (href_resolves E) rows \<Longrightarrow>
   extract_links_rows E rows links = Inr (links @ List.map_filter (link_pair E) rows)"
proof (induction rows arbitrary: links)
  case Nil
  then show ?case by (simp add: map_filter_simps)
next
  case (Cons row rows)
  then show ?case
    by (auto simp: extract_links_rows_step map_filter_simps link_pair_def href_present_def
          href_resolves_def simp del: extract_links_rows.simps
          split: option.splits sum.splits)
qed

lemma extract_links_rows_raises:
  "\<not> list_all href_present rows \<Longrightarrow>
   extract_links_rows E rows links = Inl (KeyError ''href'')
   \<or> (\<exists>e. extract_links_rows E rows links = Inl (Raised e))"
proof (induction rows arbitrary: links)
  case Nil
  then show ?case by simp
next
  case (Cons row rows)
  show ?case
  proof (cases "href_present row")
    case True
    then have "\<not> list_all href_present rows"
      using Cons.prems by simp
    then have "\<And>links'. extract_links_rows E rows links' = Inl (KeyError ''href'')
                 \<or> (\<exists>e. extract_links_rows E rows links' = Inl (Raised e))"
      using Cons.IH by blast
    then show ?thesis
      by (simp add: extract_links_rows_step del: extract_links_rows.simps
            split: option.splits sum.splits)
  next
    case False
    then show ?thesis
      by (auto simp: extract_links_rows_step href_present_def
            simp del: extract_links_rows.simps split: option.splits sum.splits)
  qed
qed

lemma extract_links_rows_unresolved:
  "\<not> list_all (href_resolves E) rows \<Longrightarrow> \<exists>e. extract_links_rows E rows links = Inl e"
proof (induction rows arbitrary: links)
  case Nil
  then show ?case by simp
next
  case (Cons row rows)
  show ?case
  proof (cases "href_resolves E row")
    case True
    then have "\<not> list_all (href_resolves E) rows"
      using Cons.prems by simp
    then have "\<And>links'. \<exists>e. extract_links_rows E rows links' = Inl e"
      using Cons.IH by blast
    then show ?thesis
      by (simp add: extract_links_rows_step del: extract_links_rows.simps
            split: option.splits sum.splits)
  next
    case False
    then show ?thesis
      by (auto simp: extract_links_rows_step href_resolves_def
            simp del: extract_links_rows.simps split: option.splits sum.splits)
  qed
qed

lemma extract_links_rows_no_KeyError:
  "list_all href_present rows \<Longrightarrow> extract_links_rows E rows links \<noteq> Inl (KeyError k)"
proof (induction rows arbitrary: links)
  case Nil
  then show ?case by simp
next
  case (Cons row rows)
  then show ?case
    by (auto simp: extract_links_rows_step href_present_def
          simp del: extract_links_rows.simps split: option.splits sum.splits)
qed

text \<open>
  \<open>extract_links\<close> on a document returns the pairs of the specification when every
  hyperlink found has an href on which \<open>urljoin\<close> returns.
\<close>

lemma extract_links_ok:
  "hrefs_present doc \<Longrightarrow> hrefs_resolve E doc \<Longrightarrow>
   extract_links E (Some doc)
   = Inr (case find_table doc of None \<Rightarrow> [] | Some table \<Rightarrow> link_pairs_spec E table)"
  by (auto simp: extract_links_def hrefs_present_def hrefs_resolve_def link_pairs_spec_def
        extract_links_rows_ok split: option.splits)

lemma extract_links_returns_iff:
  "(\<exists>links. extract_links E (Some doc) = Inr links) \<longleftrightarrow> hrefs_present doc \<and> hrefs_resolve E doc"
proof (cases "find_table doc")
  case None
  then show ?thesis
    by (simp add: extract_links_def hrefs_present_def hrefs_resolve_def)
next
  case (Some table)
  let ?rows = "drop 4 (find_all ''tr'' table)"
  show ?thesis
  proof (cases "list_all href_present ?rows \<and> list_all (href_resolves E) ?rows")
    case True
    then show ?thesis
      using Some by (simp add: extract_links_def hrefs_present_def hrefs_resolve_def
          extract_links_rows_ok)
  next
    case False
    then have "\<exists>e. extract_links_rows E ?rows [] = Inl e"
      using extract_links_rows_raises [of ?rows E "[]"]
        extract_links_rows_unresolved [of E ?rows "[]"] by auto
    then show ?thesis
      using Some False by (auto simp: extract_links_def hrefs_present_def hrefs_resolve_def)
  qed
qed

lemma extract_links_no_KeyError:
  "hrefs_present doc \<Longrightarrow> extract_links E (Some doc) \<noteq> Inl (KeyError k)"
  by (auto simp: extract_links_def hrefs_present_def extract_links_rows_no_KeyError
        split: option.splits)

lemma extract_links_raises:
  "\<not> hrefs_present doc \<Longrightarrow>
   extract_links E (Some doc) = Inl (KeyError ''href'')
   \<or> (\<exists>e. extract_links E (Some doc) = Inl (Raised e))"
  by (auto simp: extract_links_def hrefs_present_def split: option.splits
        dest: extract_links_rows_raises)

text \<open>
  Claim C3 as stated fails in three ways. On a page whose table has, after the four header
  rows, a row with two cells and the anchor \<open><a name=agra>Agra</a>\<close> in the second,
  the call returns no pair and raises KeyError for \<open>href\<close>. On a page whose link has
  the href \<open>d1.aspx\<close>, the pair returned holds \<open>put/your/base/url/d1.aspx\<close>, which
  is not an absolute URL: the fixed base URL is itself relative. On a page whose link has
  the href \<open>http://[::1\<close>, \<open>urljoin\<close> raises ValueError and no pair is returned.
\<close>

theorem extract_links_raises_or_relative:
  "find_table sample_nohref_page \<noteq> None
   \<and> extract_links sample_env (Some sample_nohref_page) = Inl (KeyError ''href'')
   \<and> find_table sample_relative_page \<noteq> None
   \<and> urljoin sample_env base_url ''d1.aspx'' = Inr ''put/your/base/url/d1.aspx''
   \<and> extract_links sample_env (Some sample_relative_page)
       = Inr [(''Agra'', ''put/your/base/url/d1.aspx'')]
   \<and> \<not> absolute_url ''put/your/base/url/d1.aspx''
   \<and> find_table sample_bracket_page \<noteq> None
   \<and> extract_links sample_env (Some sample_bracket_page)
       = Inl (Raised ''ValueError: Invalid IPv6 URL'')"
  by code_simp

text \<open>
  Claim C3, amended. For every parsed document that contains the table, in which every
  hyperlink found in the rows after the first four has an href and \<open>urljoin\<close> returns
  on each of these, \<open>extract_links\<close> returns, for each of these rows with at least two
  cells whose second cell contains a hyperlink, the pair of the transliterated, trimmed
  link text and the result of \<open>urljoin\<close> for the fixed base URL and the href, in row
  order; the other rows give nothing.
\<close>

theorem extract_links_pairs:
  assumes "hrefs_present doc" and "hrefs_resolve E doc" and "find_table doc = Some table"
  shows "extract_links E (Some doc) = Inr (link_pairs_spec E table)"
  using assms by (simp add: extract_links_ok)

text \<open>The state page of the sample gives its two links, the first name trimmed.\<close>

theorem extract_links_pairs_witness:
  "hrefs_present sample_state_page
   \<and> hrefs_resolve sample_env sample_state_page
   \<and> find_table sample_state_page = Some (Tag ''table'' [(''id'', ''t1'')]
        (header_rows @ [link_row '' Agra '' ''http://h/d1'', link_row ''Mathura'' ''http://h/d2'']))
   \<and> extract_links sample_env (Some sample_state_page)
       = Inr [(''Agra'', ''http://h/d1''), (''Mathura'', ''http://h/d2'')]"
proof -
  let ?table = "Tag ''table'' [(''id'', ''t1'')]
        (header_rows @ [link_row '' Agra '' ''http://h/d1'', link_row ''Mathura'' ''http://h/d2''])"
  have h: "hrefs_present sample_state_page" by code_simp
  have r: "hrefs_resolve sample_env sample_state_page" by code_simp
  have t: "find_table sample_state_page = Some ?table" by code_simp
  have s: "link_pairs_spec sample_env ?table
           = [(''Agra'', ''http://h/d1''), (''Mathura'', ''http://h/d2'')]" by code_simp
  have e: "extract_links sample_env (Some sample_state_page)
       = Inr [(''Agra'', ''http://h/d1''), (''Mathura'', ''http://h/d2'')]"
    using extract_links_pairs [OF h r t] s by simp
  show ?thesis
    by (intro conjI h r t e)
qed

text \<open>
  Claim C10. \<open>extract_links\<close> reads the href of a hyperlink it finds without a check.
  When every hyperlink found in the second cell of a row after the first four (with at
  least two cells) has an href, the call raises no KeyError; when one of them has none, the
  call raises: KeyError for \<open>href\<close>, or the exception of \<open>urljoin\<close> on an earlier
  row. It returns a list exactly when every hyperlink found has an href on which
  \<open>urljoin\<close> returns.
\<close>

theorem extract_links_total_iff:
  "(hrefs_present doc \<longrightarrow> (\<forall>k. extract_links E (Some doc) \<noteq> Inl (KeyError k)))
   \<and> (\<not> hrefs_present doc \<longrightarrow>
        extract_links E (Some doc) = Inl (KeyError ''href'')
        \<or> (\<exists>e. extract_links E (Some doc) = Inl (Raised e)))
   \<and> ((\<exists>links. extract_links E (Some doc) = Inr links)
        \<longleftrightarrow> hrefs_present doc \<and> hrefs_resolve E doc)"
  using extract_links_no_KeyError [of doc E] extract_links_raises [of doc E]
    extract_links_returns_iff [of E doc]
  by blast

text \<open>
  The district page of the sample satisfies the precondition and gives a list; the page
  with the bare anchor does not and raises KeyError; the page with the href
  \<open>http://[::1\<close> satisfies it and raises, but no KeyError.
\<close>

theorem extract_links_total_iff_witness:
  "hrefs_present sample_district_page
   \<and> hrefs_resolve sample_env sample_district_page
   \<and> (\<exists>links. extract_links sample_env (Some sample_district_page) = Inr links)
   \<and> \<not> hrefs_present sample_nohref_page
   \<and> extract_links sample_env (Some sample_nohref_page) = Inl (KeyError ''href'')
   \<and> hrefs_present sample_bracket_page
   \<and> \<not> hrefs_resolve sample_env sample_bracket_page
   \<and> extract_links sample_env (Some sample_bracket_page) \<noteq> Inl (KeyError ''href'')
   \<and> (\<nexists>links. extract_links sample_env (Some sample_bracket_page) = Inr links)"
proof -
  have a: "hrefs_present sample_district_page" by code_simp
  have b: "hrefs_resolve sample_env sample_district_page" by code_simp
  have c: "\<not> hrefs_present sample_nohref_page" by code_simp
  have d: "extract_links sample_env (Some sample_nohref_page) = Inl (KeyError ''href'')"
    by code_simp
  have e: "hrefs_present sample_bracket_page" by code_simp
  have f: "\<not> hrefs_resolve sample_env sample_bracket_page" by code_simp
  have r: "\<exists>links. extract_links sample_env (Some sample_district_page) = Inr links"
    using extract_links_total_iff [of sample_district_page sample_env] a b by blast
  have k: "extract_links sample_env (Some sample_bracket_page) \<noteq> Inl (KeyError ''href'')"
    using extract_links_total_iff [of sample_bracket_page sample_env] e by blast
  have n: "\<nexists>links. extract_links sample_env (Some sample_bracket_page) = Inr links"
    using extract_links_total_iff [of sample_bracket_page sample_env] f by blast
  show ?thesis
    by (intro conjI a b r c d e f k n)
qed

text \<open>
  Claim C4. On the absent document \<open>None\<close>, and on every parsed document without a table
  of id \<open>t1\<close>, both \<open>extract_links\<close> and \<open>scrape_table_data\<close> return the empty list
  and raise nothing.
\<close>

theorem no_table_empty:
  "extract_links E None = Inr []
   \<and> scrape_table_data E None state state_id fy district block = Inr []
   \<and> (find_table doc = None \<longrightarrow>
        extract_links E (Some doc) = Inr []
        \<and> scrape_table_data E (Some doc) state state_id fy district block = Inr [])"
  by (simp add: extract_links_def scrape_table_data_def)

text \<open>A page with a paragraph and no table.\<close>

theorem no_table_empty_witness:
  "find_table sample_plain_page = None
   \<and> extract_links sample_env (Some sample_plain_page) = Inr []
   \<and> scrape_table_data sample_env (Some sample_plain_page) ''UP'' ''09'' ''2023-24'' ''Agra'' ''Bah''
       = Inr []"
proof -
  have h: "find_table sample_plain_page = None" by code_simp
  show ?thesis
    using h no_table_empty [of sample_env "''UP''" "''09''" "''2023-24''" "''Agra''" "''Bah''"
        sample_plain_page]
    by simp
qed

section \<open>The page fetcher\<close>

lemma n_requests_append [simp]: "n_requests (xs @ ys) = n_requests xs + n_requests ys"
  by (simp add: n_requests_def)

lemma n_requests_simps [simp]:
  "n_requests [] = 0"
  "n_requests (Request u # xs) = Suc (n_requests xs)"
  "n_requests (Print m # xs) = n_requests xs"
  "n_requests (Sleep k # xs) = n_requests xs"
  "n_requests (WriteCsv p c t # xs) = n_requests xs"
  by (simp_all add: n_requests_def is_request_def)

lemma get_soup_failed:
  "fetch_failed (requests_get E (n_requests log) url) \<Longrightarrow>
   get_soup E url log =
     (Inr None, log @ [Request url,
                       Print (''Error fetching '' @ url @ '': ''
                              @ exception_text (requests_get E (n_requests log) url))])"
  by (simp add: get_soup_def fetch_failed_def exception_text_def split: outcome.splits)

lemma get_soup_response:
  "requests_get E (n_requests log) url = Response soup \<Longrightarrow>
   get_soup E url log = (Inr (Some soup), log @ [Request url, Sleep 1])"
  by (simp add: get_soup_def)

lemma get_soup_aborted:
  "fetch_aborted (requests_get E (n_requests log) url) \<Longrightarrow>
   get_soup E url log =
     (Inl (Raised (exception_text (requests_get E (n_requests log) url))),
      log @ (case requests_get E (n_requests log) url of
               ParseAborts e \<Rightarrow> [Request url, Sleep 1]
             | _ \<Rightarrow> [Request url]))"
  by (simp add: get_soup_def fetch_aborted_def exception_text_def split: outcome.splits)

lemma get_soup_cases:
  obtains (failed) "fetch_failed (requests_get E (n_requests log) url)"
  | (aborted) "fetch_aborted (requests_get E (n_requests log) url)"
  | (response) soup where "requests_get E (n_requests log) url = Response soup"
  by (cases "requests_get E (n_requests log) url")
     (auto simp: fetch_failed_def fetch_aborted_def)

lemma get_soup_n_requests:
  "get_soup E url log = (soup, log1) \<Longrightarrow> n_requests log1 = Suc (n_requests log)"
  by (auto simp: get_soup_def split: outcome.splits)

text \<open>
  Claim C2 as stated fails: when the second block of the sample answers with the status 404,
  the request completes, \<open>raise_for_status\<close> raises, and \<open>get_soup\<close> prints the error and
  returns \<open>None\<close> with no \<open>time.sleep(1)\<close>.
\<close>

theorem get_soup_no_delay_on_failure:
  "requests_get sample_env 0 ''http://h/b2'' = StatusRaises ''404 Client Error''
   \<and> get_soup sample_env ''http://h/b2'' []
       = (Inr None,
          [Request ''http://h/b2'', Print ''Error fetching http://h/b2: 404 Client Error''])
   \<and> Sleep 1 \<notin> set (snd (get_soup sample_env ''http://h/b2'' []))"
  by code_simp

text \<open>
  Claim C2, amended. When \<open>requests.get\<close> or \<open>raise_for_status\<close> raises a
  RequestException, \<open>get_soup\<close> makes the request, prints the line
  \<open>Error fetching url: exception\<close> and returns \<open>None\<close>, with no delay; it returns
  \<open>None\<close> in no other case. The delay of 1 second follows the request exactly when
  \<open>requests.get\<close> returned and \<open>raise_for_status\<close> did not raise. When \<open>get_soup\<close>
  returns a tree, it is that of the response and the request was followed by the one
  delay. \<open>get_soup\<close> raises exactly when an exception of another class is raised inside
  it.
\<close>

theorem get_soup_delay:
  "(fetch_failed (requests_get E (n_requests log) url) \<longrightarrow>
      get_soup E url log =
        (Inr None, log @ [Request url,
                          Print (''Error fetching '' @ url @ '': ''
                                 @ exception_text (requests_get E (n_requests log) url))]))
   \<and> (fst (get_soup E url log) = Inr None \<longrightarrow>
        fetch_failed (requests_get E (n_requests log) url))
   \<and> ((\<exists>n. Sleep n \<in> set (drop (length log) (snd (get_soup E url log))))
        \<longleftrightarrow> \<not> fetch_failed (requests_get E (n_requests log) url)
            \<and> (\<forall>e. requests_get E (n_requests log) url \<noteq> GetAborts e))
   \<and> (\<forall>soup. fst (get_soup E url log) = Inr (Some soup) \<longrightarrow>
        requests_get E (n_requests log) url = Response soup
        \<and> snd (get_soup E url log) = log @ [Request url, Sleep 1])
   \<and> ((\<exists>e. fst (get_soup E url log) = Inl e)
        \<longleftrightarrow> fetch_aborted (requests_get E (n_requests log) url))"
  by (cases "requests_get E (n_requests log) url")
     (simp_all add: get_soup_def fetch_failed_def fetch_aborted_def exception_text_def)

text \<open>
  In the sample: the unreachable second district, the first district, and the district at
  \<open>http://a..b/\<close>.
\<close>

theorem get_soup_delay_witness:
  "fetch_failed (requests_get sample_env (n_requests []) ''http://h/d2'')
   \<and> get_soup sample_env ''http://h/d2'' []
       = (Inr None,
          [Request ''http://h/d2'', Print ''Error fetching http://h/d2: Connection refused''])
   \<and> fst (get_soup sample_env ''http://h/d1'' []) = Inr (Some sample_district_page)
   \<and> snd (get_soup sample_env ''http://h/d1'' []) = [Request ''http://h/d1'', Sleep 1]
   \<and> fetch_aborted (requests_get sample_env (n_requests []) ''http://a..b/'')
   \<and> (\<exists>e. fst (get_soup sample_env ''http://a..b/'' []) = Inl e)"
proof -
  have f: "fetch_failed (requests_get sample_env (n_requests []) ''http://h/d2'')"
    by code_simp
  have t: "exception_text (requests_get sample_env (n_requests []) ''http://h/d2'')
           = ''Connection refused''"
    by code_simp
  have a: "get_soup sample_env ''http://h/d2'' []
       = (Inr None,
          [Request ''http://h/d2'', Print ''Error fetching http://h/d2: Connection refused''])"
    using get_soup_delay [where E = sample_env and url = "''http://h/d2''" and log = "[]",
        THEN conjunct1] f t
    by simp
  have r: "fst (get_soup sample_env ''http://h/d1'' []) = Inr (Some sample_district_page)"
    by code_simp
  have b: "snd (get_soup sample_env ''http://h/d1'' []) = [Request ''http://h/d1'', Sleep 1]"
    using get_soup_delay [where E = sample_env and url = "''http://h/d1''" and log = "[]",
        THEN conjunct2, THEN conjunct2, THEN conjunct2, THEN conjunct1] r
    by simp
  have g: "fetch_aborted (requests_get sample_env (n_requests []) ''http://a..b/'')"
    by code_simp
  have c: "\<exists>e. fst (get_soup sample_env ''http://a..b/'' []) = Inl e"
    using get_soup_delay [where E = sample_env and url = "''http://a..b/''" and log = "[]",
        THEN conjunct2, THEN conjunct2, THEN conjunct2, THEN conjunct2] g
    by simp
  show ?thesis
    by (intro conjI f a r b g c)
qed

section \<open>Query parameters\<close>

lemma parse_qsl_fields_eq:
  "parse_qsl_fields E name_values r =
     r @ map (\<lambda>name_value. (unquote_plus E (partition_name name_value),
                              unquote_plus E (partition_value name_value)))
           (filter (\<lambda>name_value. partition_value name_value \<noteq> []) name_values)"
  by (induction name_values arbitrary: r) (auto simp: Let_def partition_value_def)

lemma parse_qsl_eq:
  "parse_qsl E qs =
     map (\<lambda>name_value. (unquote_plus E (partition_name name_value),
                          unquote_plus E (partition_value name_value)))
       (filter (\<lambda>name_value. partition_value name_value \<noteq> []) (split CHR ''&'' qs))"
  by (simp add: parse_qsl_def parse_qsl_fields_eq split_def partition_value_def)

lemma parse_qs_pairs_lookup:
  "parse_qs_pairs pairs parsed_result k =
     (case parsed_result k of
        None \<Rightarrow>
          (case map snd (filter (\<lambda>p. fst p = k) pairs) of [] \<Rightarrow> None | v # vs \<Rightarrow> Some (v # vs))
      | Some ws \<Rightarrow> Some (ws @ map snd (filter (\<lambda>p. fst p = k) pairs)))"
proof (induction pairs arbitrary: parsed_result)
  case Nil
  then show ?case by (simp split: option.splits)
next
  case (Cons p pairs)
  obtain name val where p: "p = (name, val)" by (cases p)
  show ?case
    unfolding p by (simp add: Cons.IH split: option.splits list.splits)
qed

lemma parse_qs_lookup:
  "parse_qs E (urlparse_query state_url) k =
     (case param_values E state_url k of [] \<Rightarrow> None | v # vs \<Rightarrow> Some (v # vs))"
proof -
  have "map snd (filter (\<lambda>p. fst p = k) (parse_qsl E (urlparse_query state_url)))
        = param_values E state_url k"
    by (simp add: parse_qsl_eq param_values_def filter_map comp_def)
  then show ?thesis
    by (simp add: parse_qs_def parse_qs_pairs_lookup)
qed

lemma param_getitem:
  "list_getitem (dict_get (parse_qs E (urlparse_query state_url)) k [''Unknown'']) 0
   = Inr (param_or_unknown E state_url k)"
  by (simp add: parse_qs_lookup dict_get_def list_getitem_def param_or_unknown_def
        split: list.splits)

lemma param_absent:
  "\<forall>name_value \<in> set (split CHR ''&'' (urlparse_query state_url)).
     unquote_plus E (partition_name name_value) \<noteq> k \<Longrightarrow>
   param_values E state_url k = []"
  by (auto simp: param_values_def filter_empty_conv)

text \<open>
  Claim C8 as stated fails. In the URL \<open>http://h/s?state_name=&state_code=09&fin_year\<close>
  the parameters \<open>state_name\<close> and \<open>fin_year\<close> are present, yet the context holds
  Unknown for both and no first value: \<open>parse_qs\<close> leaves out a field with a blank
  value. On \<open>http://[::1/s?state_name=UP\<close>, \<open>urlparse\<close> raises ValueError and there
  is no context.
\<close>

theorem crawl_context_blank_value:
  "split CHR ''&'' (urlparse_query ''http://h/s?state_name=&state_code=09&fin_year'')
     = [''state_name='', ''state_code=09'', ''fin_year'']
   \<and> crawl_context sample_env ''http://h/s?state_name=&state_code=09&fin_year''
       = Inr (''Unknown'', ''09'', ''Unknown'')
   \<and> crawl_context sample_env ''http://[::1/s?state_name=UP''
       = Inl (Raised ''ValueError: Invalid IPv6 URL'')"
  by code_simp

text \<open>
  Claim C8, amended. When \<open>urlparse\<close> returns on a state URL, each of \<open>state_name\<close>,
  \<open>state_code\<close> and \<open>fin_year\<close> in the crawl context is, with no error, the decoded
  value of the first field of the URL's query that has this name and a non-empty value, and
  the string Unknown when the query has no such field; so it is Unknown for a parameter
  that is absent from the URL. When \<open>urlparse\<close> raises, the exception is not caught and
  there is no context.
\<close>

theorem crawl_context_params:
  "crawl_context E state_url =
     (case urlparse_raises E state_url of
        Some e \<Rightarrow> Inl (Raised e)
      | None \<Rightarrow> Inr (param_or_unknown E state_url ''state_name'',
                     param_or_unknown E state_url ''state_code'',
                     param_or_unknown E state_url ''fin_year''))
   \<and> ((\<forall>name_value \<in> set (split CHR ''&'' (urlparse_query state_url)).
          unquote_plus E (partition_name name_value) \<noteq> k)
      \<longrightarrow> param_or_unknown E state_url k = ''Unknown'')"
  by (simp add: crawl_context_def Let_def and_then_def param_getitem param_absent
        param_or_unknown_def split: option.splits)

text \<open>A URL with two values for the state name and the other two parameters absent.\<close>

theorem crawl_context_params_witness:
  "urlparse_raises sample_env ''http://h/s?state_name=Bihar&state_name=BR'' = None
   \<and> split CHR ''&'' (urlparse_query ''http://h/s?state_name=Bihar&state_name=BR'')
       = [''state_name=Bihar'', ''state_name=BR'']
   \<and> param_values sample_env ''http://h/s?state_name=Bihar&state_name=BR'' ''state_name''
       = [''Bihar'', ''BR'']
   \<and> param_or_unknown sample_env ''http://h/s?state_name=Bihar&state_name=BR'' ''state_code''
       = ''Unknown''
   \<and> crawl_context sample_env ''http://h/s?state_name=Bihar&state_name=BR''
       = Inr (''Bihar'', ''Unknown'', ''Unknown'')"
proof -
  let ?url = "''http://h/s?state_name=Bihar&state_name=BR''"
  have r: "urlparse_raises sample_env ?url = None" by code_simp
  have f: "split CHR ''&'' (urlparse_query ?url) = [''state_name=Bihar'', ''state_name=BR'']"
    by code_simp
  have v: "param_values sample_env ?url ''state_name'' = [''Bihar'', ''BR'']" by code_simp
  have n: "param_or_unknown sample_env ?url ''state_name'' = ''Bihar''"
    by (simp add: param_or_unknown_def v)
  have p: "partition_name ''state_name=Bihar'' = ''state_name''"
    "partition_name ''state_name=BR'' = ''state_name''"
    by code_simp+
  have q: "unquote_plus sample_env = (\<lambda>s. s)"
    by (simp add: sample_env_def)
  have u: "param_or_unknown sample_env ?url ''state_code'' = ''Unknown''"
    using crawl_context_params [of sample_env ?url "''state_code''", THEN conjunct2] f p q
    by simp
  have y: "param_or_unknown sample_env ?url ''fin_year'' = ''Unknown''"
    using crawl_context_params [of sample_env ?url "''fin_year''", THEN conjunct2] f p q
    by simp
  have c: "crawl_context sample_env ?url = Inr (''Bihar'', ''Unknown'', ''Unknown'')"
    using crawl_context_params [of sample_env ?url "''state_code''", THEN conjunct1] r n u y
    by simp
  show ?thesis
    by (intro conjI r f v u c)
qed

section \<open>Fetch failures in the crawl\<close>

lemma blocks_loop_append:
  "blocks_loop E state state_id fy district_name (xs @ ys) all_data log =
     (case blocks_loop E state state_id fy district_name xs all_data log of
        (Inl e, log1) \<Rightarrow> (Inl e, log1)
      | (Inr all_data1, log1) \<Rightarrow> blocks_loop E state state_id fy district_name ys all_data1 log1)"
  by (induction xs arbitrary: all_data log)
     (auto split: prod.splits option.splits sum.splits)

lemma districts_loop_append:
  "districts_loop E state state_id fy (xs @ ys) all_data log =
     (case districts_loop E state state_id fy xs all_data log of
        (Inl e, log1) \<Rightarrow> (Inl e, log1)
      | (Inr all_data1, log1) \<Rightarrow> districts_loop E state state_id fy ys all_data1 log1)"
  by (induction xs arbitrary: all_data log)
     (auto split: prod.splits option.splits sum.splits)

lemma states_loop_append:
  "states_loop E (xs @ ys) all_data log =
     (case states_loop E xs all_data log of
        (Inl e, log1) \<Rightarrow> (Inl e, log1)
      | (Inr all_data1, log1) \<Rightarrow> states_loop E ys all_data1 log1)"
  by (induction xs arbitrary: all_data log)
     (auto split: prod.splits option.splits sum.splits)

lemma blocks_loop_skip:
  assumes "blocks_loop E state state_id fy district_name pre all_data log = (Inr all_data1, log1)"
    and "fetch_failed (requests_get E (n_requests log1) block_url)"
  shows "blocks_loop E state state_id fy district_name (pre @ (block_name, block_url) # post) all_data log
         = blocks_loop E state state_id fy district_name post all_data1
             (log1 @ [Print (''Processing block: '' @ block_name @ '' in '' @ district_name
                             @ '', '' @ state),
                      Request block_url,
                      Print (''Error fetching '' @ block_url @ '': ''
                             @ exception_text (requests_get E (n_requests log1) block_url)),
                      Print (''Skipping '' @ block_name @ '' due to fetch error.'')])"
  using assms by (simp add: blocks_loop_append get_soup_failed)

lemma districts_loop_skip:
  assumes "districts_loop E state state_id fy pre all_data log = (Inr all_data1, log1)"
    and "fetch_failed (requests_get E (n_requests log1) district_url)"
  shows "districts_loop E state state_id fy (pre @ (district_name, district_url) # post) all_data log
         = districts_loop E state state_id fy post all_data1
             (log1 @ [Print (''Processing district: '' @ district_name @ '' in '' @ state),
                      Request district_url,
                      Print (''Error fetching '' @ district_url @ '': ''
                             @ exception_text (requests_get E (n_requests log1) district_url)),
                      Print (''Skipping '' @ district_name @ '' due to fetch error.'')])"
  using assms by (simp add: districts_loop_append get_soup_failed)

lemma states_loop_skip:
  assumes "states_loop E pre all_data log = (Inr all_data1, log1)"
    and "crawl_context E state_url = Inr (state, state_id, fy)"
    and "fetch_failed (requests_get E (n_requests log1) state_url)"
  shows "states_loop E (pre @ state_url # post) all_data log
         = states_loop E post all_data1
             (log1 @ [Print (''Processing state: '' @ state),
                      Request state_url,
                      Print (''Error fetching '' @ state_url @ '': ''
                             @ exception_text (requests_get E (n_requests log1) state_url)),
                      Print (''Failed to fetch state page for '' @ state @ ''. Skipping.'')])"
  using assms by (simp add: states_loop_append get_soup_failed)

lemma blocks_loop_abort:
  assumes "blocks_loop E state state_id fy district_name pre all_data log = (Inr all_data1, log1)"
    and "fetch_aborted (requests_get E (n_requests log1) block_url)"
  shows "fst (blocks_loop E state state_id fy district_name (pre @ (block_name, block_url) # post)
                all_data log)
         = Inl (Raised (exception_text (requests_get E (n_requests log1) block_url)))"
  using assms by (simp add: blocks_loop_append get_soup_aborted)

lemma districts_loop_abort:
  assumes "districts_loop E state state_id fy pre all_data log = (Inr all_data1, log1)"
    and "fetch_aborted (requests_get E (n_requests log1) district_url)"
  shows "fst (districts_loop E state state_id fy (pre @ (district_name, district_url) # post)
                all_data log)
         = Inl (Raised (exception_text (requests_get E (n_requests log1) district_url)))"
  using assms by (simp add: districts_loop_append get_soup_aborted)

lemma states_loop_abort:
  assumes "states_loop E pre all_data log = (Inr all_data1, log1)"
    and "crawl_context E state_url = Inr (state, state_id, fy)"
    and "fetch_aborted (requests_get E (n_requests log1) state_url)"
  shows "fst (states_loop E (pre @ state_url # post) all_data log)
         = Inl (Raised (exception_text (requests_get E (n_requests log1) state_url)))"
  using assms by (simp add: states_loop_append get_soup_aborted)

lemma blocks_loop_total:
  "list_all (block_ok E) block_links \<Longrightarrow>
   \<exists>all_data1 log1. blocks_loop E state state_id fy district_name block_links all_data log
       = (Inr all_data1, log1)"
proof (induction block_links arbitrary: all_data log)
  case Nil
  show ?case by simp
next
  case (Cons link block_links)
  obtain block_name block_url where link: "link = (block_name, block_url)" by (cases link)
  let ?log = "log @ [Print (''Processing block: '' @ block_name @ '' in '' @ district_name
                            @ '', '' @ state)]"
  have IH: "\<And>all_data log. \<exists>all_data1 log1.
      blocks_loop E state state_id fy district_name block_links all_data log = (Inr all_data1, log1)"
    using Cons by simp
  show ?case
  proof (cases rule: get_soup_cases [of E ?log block_url])
    case failed
    then show ?thesis
      unfolding link using IH by (simp add: get_soup_failed)
  next
    case aborted
    then show ?thesis
      using Cons.prems by (auto simp: link block_ok_def)
  next
    case (response soup)
    then show ?thesis
      unfolding link using IH by (simp add: get_soup_response scrape_table_data_eq)
  qed
qed

lemma districts_loop_total:
  "list_all (district_ok E) district_links \<Longrightarrow>
   \<exists>all_data1 log1. districts_loop E state state_id fy district_links all_data log
       = (Inr all_data1, log1)"
proof (induction district_links arbitrary: all_data log)
  case Nil
  show ?case by simp
next
  case (Cons link district_links)
  obtain district_name district_url where link: "link = (district_name, district_url)"
    by (cases link)
  let ?log = "log @ [Print (''Processing district: '' @ district_name @ '' in '' @ state)]"
  have IH: "\<And>all_data log. \<exists>all_data1 log1.
      districts_loop E state state_id fy district_links all_data log = (Inr all_data1, log1)"
    using Cons by simp
  have ok: "district_ok E (district_name, district_url)"
    using Cons.prems by (simp add: link)
  show ?case
  proof (cases rule: get_soup_cases [of E ?log district_url])
    case failed
    then show ?thesis
      unfolding link using IH by (simp add: get_soup_failed)
  next
    case aborted
    then show ?thesis
      using ok [unfolded district_ok_def, rule_format, of "n_requests ?log"]
      by (auto simp: fetch_aborted_def split: outcome.splits)
  next
    case (response soup)
    then obtain block_links where bl: "extract_links E (Some soup) = Inr block_links"
      and bok: "list_all (block_ok E) block_links"
      using ok [unfolded district_ok_def, rule_format, of "n_requests ?log"]
      by (auto split: sum.splits)
    obtain a1 l1 where
      "blocks_loop E state state_id fy district_name block_links all_data
         (?log @ [Request district_url, Sleep 1,
                  Print (''Found '' @ str_nat (length block_links) @ '' blocks in ''
                         @ district_name @ ''.'')]) = (Inr a1, l1)"
      using blocks_loop_total [OF bok] by blast
    then show ?thesis
      unfolding link using IH response bl by (simp add: get_soup_response)
  qed
qed

lemma states_loop_total:
  "list_all (state_ok E) state_urls \<Longrightarrow>
   \<exists>all_data1 log1. states_loop E state_urls all_data log = (Inr all_data1, log1)"
proof (induction state_urls arbitrary: all_data log)
  case Nil
  show ?case by simp
next
  case (Cons state_url state_urls)
  have ok: "state_ok E state_url"
    using Cons.prems by simp
  then obtain state state_id fy where ctx: "crawl_context E state_url = Inr (state, state_id, fy)"
    by (auto simp: state_ok_def)
  have IH: "\<And>all_data log. \<exists>all_data1 log1. states_loop E state_urls all_data log = (Inr all_data1, log1)"
    using Cons by simp
  let ?log = "log @ [Print (''Processing state: '' @ state)]"
  note at = ok [unfolded state_ok_def, THEN conjunct2, rule_format, of "n_requests ?log"]
  show ?case
  proof (cases rule: get_soup_cases [of E ?log state_url])
    case failed
    then show ?thesis
      using IH ctx by (simp add: get_soup_failed)
  next
    case aborted
    then show ?thesis
      using at by (auto simp: fetch_aborted_def split: outcome.splits)
  next
    case (response soup)
    then obtain district_links where dl: "extract_links E (Some soup) = Inr district_links"
      and dok: "list_all (district_ok E) district_links"
      using at by (auto split: sum.splits)
    obtain a1 l1 where
      "districts_loop E state state_id fy district_links all_data
         (?log @ [Request state_url, Sleep 1,
                  Print (''Found '' @ str_nat (length district_links) @ '' districts in ''
                         @ state @ ''.'')]) = (Inr a1, l1)"
      using districts_loop_total [OF dok] by blast
    then show ?thesis
      using IH response dl ctx by (simp add: get_soup_response)
  qed
qed

lemma sample_states_ok: "list_all (state_ok sample_env) [''http://h/x'', sample_state_url]"
proof -
  have rg: "\<And>n. requests_get sample_env n = sample_web"
    by (simp add: sample_env_def)
  have w: "sample_web ''http://h/x'' = GetRaises ''Connection refused''"
    "sample_web sample_state_url = Response sample_state_page"
    "sample_web ''http://h/d1'' = Response sample_district_page"
    "sample_web ''http://h/d2'' = GetRaises ''Connection refused''"
    "sample_web ''http://h/b1'' = Response sample_block_page"
    "sample_web ''http://h/b2'' = StatusRaises ''404 Client Error''"
    by code_simp+
  have e: "extract_links sample_env (Some sample_state_page)
             = Inr [(''Agra'', ''http://h/d1''), (''Mathura'', ''http://h/d2'')]"
    "extract_links sample_env (Some sample_district_page)
             = Inr [(''Bah'', ''http://h/b1''), (''Etmadpur'', ''http://h/b2'')]"
    by code_simp+
  have c: "crawl_context sample_env ''http://h/x'' = Inr (''Unknown'', ''Unknown'', ''Unknown'')"
    "crawl_context sample_env sample_state_url = Inr (''UP'', ''09'', ''2023-24'')"
    by code_simp+
  show ?thesis
    by (simp add: state_ok_def district_ok_def block_ok_def fetch_aborted_def rg w e c)
qed

text \<open>
  Claim C6 as stated fails. The second state page of the sample links the districts Bad, at
  \<open>http://a..b/\<close>, and Agra. The fetch of Bad fails with LocationParseError, which is
  not a RequestException: \<open>get_soup\<close> does not catch it and the run ends there. The
  sibling district Agra and the next state of the list are never requested.
\<close>

theorem fetch_failure_aborts_run:
  "extract_links sample_env (Some sample_bad_state_page)
     = Inr [(''Bad'', ''http://a..b/''), (''Agra'', ''http://h/d1'')]
   \<and> requests_get sample_env 1 ''http://a..b/'' = GetAborts ''LocationParseError''
   \<and> main sample_env [''http://h/t?state_name=MP'', sample_state_url]
       = (Inl (Raised ''LocationParseError''),
          [Print ''Processing state: MP'', Request ''http://h/t?state_name=MP'', Sleep 1,
           Print ''Found 2 districts in MP.'', Print ''Processing district: Bad in MP'',
           Request ''http://a..b/''])
   \<and> Request ''http://h/d1''
       \<notin> set (snd (main sample_env [''http://h/t?state_name=MP'', sample_state_url]))
   \<and> Request sample_state_url
       \<notin> set (snd (main sample_env [''http://h/t?state_name=MP'', sample_state_url]))"
  by code_simp

text \<open>
  Claim C6, amended. A fetch failure that \<open>get_soup\<close> catches (a RequestException of
  \<open>requests.get\<close> or \<open>raise_for_status\<close>) at the state, district or block level
  skips the subtree of the failed page and nothing else: after the entries before it, the
  loop makes the one request, prints its two lines, keeps the collection as it is and goes
  on with all the entries after it (no retry, no stop). No pattern of such failures ends
  the run early: when every state URL has a context and the pages that the crawl can reach
  neither abort a fetch nor make \<open>extract_links\<close> raise, the loop over the states returns
  normally. A fetch that fails with an exception of another class, at any of the three
  levels, ends the loop with that exception.
\<close>

theorem fetch_failure_skips_subtree:
  "(states_loop E pre all_data log = (Inr all_data', log')
      \<and> crawl_context E state_url = Inr (state, state_id, fy)
      \<and> fetch_failed (requests_get E (n_requests log') state_url)
    \<longrightarrow> states_loop E (pre @ state_url # post) all_data log
        = states_loop E post all_data'
            (log' @ [Print (''Processing state: '' @ state),
                     Request state_url,
                     Print (''Error fetching '' @ state_url @ '': ''
                            @ exception_text (requests_get E (n_requests log') state_url)),
                     Print (''Failed to fetch state page for '' @ state @ ''. Skipping.'')]))
   \<and> (districts_loop E state state_id fy dpre all_data log = (Inr all_data', log')
      \<and> fetch_failed (requests_get E (n_requests log') district_url)
    \<longrightarrow> districts_loop E state state_id fy (dpre @ (district_name, district_url) # dpost) all_data log
        = districts_loop E state state_id fy dpost all_data'
            (log' @ [Print (''Processing district: '' @ district_name @ '' in '' @ state),
                     Request district_url,
                     Print (''Error fetching '' @ district_url @ '': ''
                            @ exception_text (requests_get E (n_requests log') district_url)),
                     Print (''Skipping '' @ district_name @ '' due to fetch error.'')]))
   \<and> (blocks_loop E state state_id fy district_name bpre all_data log = (Inr all_data', log')
      \<and> fetch_failed (requests_get E (n_requests log') block_url)
    \<longrightarrow> blocks_loop E state state_id fy district_name (bpre @ (block_name, block_url) # bpost)
          all_data log
        = blocks_loop E state state_id fy district_name bpost all_data'
            (log' @ [Print (''Processing block: '' @ block_name @ '' in '' @ district_name
                            @ '', '' @ state),
                     Request block_url,
                     Print (''Error fetching '' @ block_url @ '': ''
                            @ exception_text (requests_get E (n_requests log') block_url)),
                     Print (''Skipping '' @ block_name @ '' due to fetch error.'')]))
   \<and> (list_all (state_ok E) state_urls
    \<longrightarrow> (\<exists>all_data'' log''. states_loop E state_urls all_data log = (Inr all_data'', log'')))
   \<and> (states_loop E pre all_data log = (Inr all_data', log')
      \<and> crawl_context E state_url = Inr (state, state_id, fy)
      \<and> fetch_aborted (requests_get E (n_requests log') state_url)
    \<longrightarrow> fst (states_loop E (pre @ state_url # post) all_data log)
        = Inl (Raised (exception_text (requests_get E (n_requests log') state_url))))
   \<and> (districts_loop E state state_id fy dpre all_data log = (Inr all_data', log')
      \<and> fetch_aborted (requests_get E (n_requests log') district_url)
    \<longrightarrow> fst (districts_loop E state state_id fy (dpre @ (district_name, district_url) # dpost)
               all_data log)
        = Inl (Raised (exception_text (requests_get E (n_requests log') district_url))))
   \<and> (blocks_loop E state state_id fy district_name bpre all_data log = (Inr all_data', log')
      \<and> fetch_aborted (requests_get E (n_requests log') block_url)
    \<longrightarrow> fst (blocks_loop E state state_id fy district_name (bpre @ (block_name, block_url) # bpost)
               all_data log)
        = Inl (Raised (exception_text (requests_get E (n_requests log') block_url))))"
  using states_loop_skip [of E pre all_data log all_data' log' state_url state state_id fy post]
    districts_loop_skip [of E state state_id fy dpre all_data log all_data' log' district_url
      district_name dpost]
    blocks_loop_skip [of E state state_id fy district_name bpre all_data log all_data' log'
      block_url block_name bpost]
    states_loop_total [of E state_urls all_data log]
    states_loop_abort [of E pre all_data log all_data' log' state_url state state_id fy post]
    districts_loop_abort [of E state state_id fy dpre all_data log all_data' log' district_url
      district_name dpost]
    blocks_loop_abort [of E state state_id fy district_name bpre all_data log all_data' log'
      block_url block_name bpost]
  by blast

text \<open>
  In the sample: an unreachable state URL before the state of the sample, the unreachable
  second district before the first, and the failing second block between two visits of
  the first.
\<close>

theorem fetch_failure_skips_subtree_witness:
  "fetch_failed (requests_get sample_env 0 ''http://h/x'')
   \<and> states_loop sample_env [''http://h/x'', sample_state_url] [] []
       = states_loop sample_env [sample_state_url] []
           [Print ''Processing state: Unknown'', Request ''http://h/x'',
            Print ''Error fetching http://h/x: Connection refused'',
            Print ''Failed to fetch state page for Unknown. Skipping.'']
   \<and> fetch_failed (requests_get sample_env 0 ''http://h/d2'')
   \<and> districts_loop sample_env ''UP'' ''09'' ''2023-24''
         [(''Mathura'', ''http://h/d2''), (''Agra'', ''http://h/d1'')] [] []
       = districts_loop sample_env ''UP'' ''09'' ''2023-24'' [(''Agra'', ''http://h/d1'')] []
           [Print ''Processing district: Mathura in UP'', Request ''http://h/d2'',
            Print ''Error fetching http://h/d2: Connection refused'',
            Print ''Skipping Mathura due to fetch error.'']
   \<and> blocks_loop sample_env ''UP'' ''09'' ''2023-24'' ''Agra'' [(''Bah'', ''http://h/b1'')] [] []
       = (Inr [sample_record],
          [Print ''Processing block: Bah in Agra, UP'', Request ''http://h/b1'', Sleep 1,
           Print ''Collected data for 1 panchayats in Bah.''])
   \<and> fetch_failed (requests_get sample_env 1 ''http://h/b2'')
   \<and> blocks_loop sample_env ''UP'' ''09'' ''2023-24'' ''Agra''
         [(''Bah'', ''http://h/b1''), (''Etmadpur'', ''http://h/b2''), (''Bah'', ''http://h/b1'')] [] []
       = blocks_loop sample_env ''UP'' ''09'' ''2023-24'' ''Agra'' [(''Bah'', ''http://h/b1'')]
           [sample_record]
           [Print ''Processing block: Bah in Agra, UP'', Request ''http://h/b1'', Sleep 1,
            Print ''Collected data for 1 panchayats in Bah.'',
            Print ''Processing block: Etmadpur in Agra, UP'', Request ''http://h/b2'',
            Print ''Error fetching http://h/b2: 404 Client Error'',
            Print ''Skipping Etmadpur due to fetch error.'']
   \<and> list_all (state_ok sample_env) [''http://h/x'', sample_state_url]
   \<and> (\<exists>all_data2 log2. states_loop sample_env [''http://h/x'', sample_state_url] [] []
          = (Inr all_data2, log2))"
proof -
  let ?blog = "[Print ''Processing block: Bah in Agra, UP'', Request ''http://h/b1'', Sleep 1,
                Print ''Collected data for 1 panchayats in Bah.'']"
  have f1: "fetch_failed (requests_get sample_env 0 ''http://h/x'')"
    and f2: "fetch_failed (requests_get sample_env 0 ''http://h/d2'')"
    and f3: "fetch_failed (requests_get sample_env 1 ''http://h/b2'')"
    by code_simp+
  have e1: "exception_text (requests_get sample_env 0 ''http://h/x'') = ''Connection refused''"
    and e2: "exception_text (requests_get sample_env 0 ''http://h/d2'') = ''Connection refused''"
    and e3: "exception_text (requests_get sample_env 1 ''http://h/b2'') = ''404 Client Error''"
    by code_simp+
  have c1: "crawl_context sample_env ''http://h/x'' = Inr (''Unknown'', ''Unknown'', ''Unknown'')"
    and c2: "crawl_context sample_env sample_state_url = Inr (''UP'', ''09'', ''2023-24'')"
    by code_simp+
  have b: "blocks_loop sample_env ''UP'' ''09'' ''2023-24'' ''Agra'' [(''Bah'', ''http://h/b1'')] [] []
           = (Inr [sample_record], ?blog)"
    by code_simp
  have n: "n_requests ?blog = 1" by code_simp
  have nil: "\<And>all_data log. states_loop sample_env [] all_data log = (Inr all_data, log)"
    "\<And>s i f all_data log. districts_loop sample_env s i f [] all_data log = (Inr all_data, log)"
    "\<And>s i f d all_data log. blocks_loop sample_env s i f d [] all_data log = (Inr all_data, log)"
    by simp_all
  have S: "states_loop sample_env [''http://h/x'', sample_state_url] [] []
       = states_loop sample_env [sample_state_url] []
           [Print ''Processing state: Unknown'', Request ''http://h/x'',
            Print ''Error fetching http://h/x: Connection refused'',
            Print ''Failed to fetch state page for Unknown. Skipping.'']"
    using fetch_failure_skips_subtree
      [where E = sample_env and pre = "[]" and all_data = "[]" and log = "[]"
         and all_data' = "[]" and log' = "[]" and state_url = "''http://h/x''"
         and state = "''Unknown''" and state_id = "''Unknown''" and fy = "''Unknown''"
         and post = "[sample_state_url]" and dpre = "[]" and district_url = "''http://h/d2''"
         and district_name = "''Mathura''" and dpost = "[]" and bpre = "[]"
         and block_url = "''http://h/b2''" and block_name = "''Etmadpur''" and bpost = "[]"
         and state_urls = "[''http://h/x'', sample_state_url]", THEN conjunct1]
      f1 e1 c1 nil
    by (simp del: states_loop.simps districts_loop.simps blocks_loop.simps)
  have T: "\<exists>all_data2 log2. states_loop sample_env [''http://h/x'', sample_state_url] [] []
          = (Inr all_data2, log2)"
    using fetch_failure_skips_subtree
      [where E = sample_env and pre = "[]" and all_data = "[]" and log = "[]"
         and all_data' = "[]" and log' = "[]" and state_url = "''http://h/x''"
         and state = "''Unknown''" and state_id = "''Unknown''" and fy = "''Unknown''"
         and post = "[sample_state_url]" and dpre = "[]" and district_url = "''http://h/d2''"
         and district_name = "''Mathura''" and dpost = "[]" and bpre = "[]"
         and block_url = "''http://h/b2''" and block_name = "''Etmadpur''" and bpost = "[]"
         and state_urls = "[''http://h/x'', sample_state_url]",
         THEN conjunct2, THEN conjunct2, THEN conjunct2, THEN conjunct1]
      sample_states_ok
    by (simp del: states_loop.simps districts_loop.simps blocks_loop.simps)
  have D: "districts_loop sample_env ''UP'' ''09'' ''2023-24''
         [(''Mathura'', ''http://h/d2''), (''Agra'', ''http://h/d1'')] [] []
       = districts_loop sample_env ''UP'' ''09'' ''2023-24'' [(''Agra'', ''http://h/d1'')] []
           [Print ''Processing district: Mathura in UP'', Request ''http://h/d2'',
            Print ''Error fetching http://h/d2: Connection refused'',
            Print ''Skipping Mathura due to fetch error.'']"
    using fetch_failure_skips_subtree
      [where E = sample_env and pre = "[]" and all_data = "[]" and log = "[]"
         and all_data' = "[]" and log' = "[]" and state_url = "''http://h/x''"
         and state = "''UP''" and state_id = "''09''" and fy = "''2023-24''"
         and post = "[]" and dpre = "[]" and district_url = "''http://h/d2''"
         and district_name = "''Mathura''" and dpost = "[(''Agra'', ''http://h/d1'')]"
         and bpre = "[]" and block_url = "''http://h/b2''" and block_name = "''Etmadpur''"
         and bpost = "[]" and state_urls = "[]", THEN conjunct2, THEN conjunct1]
      f2 e2 nil
    by (simp del: states_loop.simps districts_loop.simps blocks_loop.simps)
  have B: "blocks_loop sample_env ''UP'' ''09'' ''2023-24'' ''Agra''
         [(''Bah'', ''http://h/b1''), (''Etmadpur'', ''http://h/b2''), (''Bah'', ''http://h/b1'')] [] []
       = blocks_loop sample_env ''UP'' ''09'' ''2023-24'' ''Agra'' [(''Bah'', ''http://h/b1'')]
           [sample_record]
           [Print ''Processing block: Bah in Agra, UP'', Request ''http://h/b1'', Sleep 1,
            Print ''Collected data for 1 panchayats in Bah.'',
            Print ''Processing block: Etmadpur in Agra, UP'', Request ''http://h/b2'',
            Print ''Error fetching http://h/b2: 404 Client Error'',
            Print ''Skipping Etmadpur due to fetch error.'']"
    using fetch_failure_skips_subtree
      [where E = sample_env and pre = "[]" and all_data = "[]" and log = "[]"
         and all_data' = "[sample_record]" and log' = ?blog and state_url = "''http://h/x''"
         and state = "''UP''" and state_id = "''09''" and fy = "''2023-24''"
         and post = "[]" and dpre = "[]" and district_url = "''http://h/d2''"
         and district_name = "''Agra''" and dpost = "[]"
         and bpre = "[(''Bah'', ''http://h/b1'')]" and block_url = "''http://h/b2''"
         and block_name = "''Etmadpur''" and bpost = "[(''Bah'', ''http://h/b1'')]"
         and state_urls = "[]", THEN conjunct2, THEN conjunct2, THEN conjunct1]
      f3 e3 b n
    by (simp del: states_loop.simps districts_loop.simps blocks_loop.simps)
  show ?thesis
    by (intro conjI f1 f2 f3 S D b B sample_states_ok T)
qed

section \<open>The output file\<close>

lemma leaf_record_spec_keys:
  "map fst (leaf_record_spec E cells state state_id fy district block) = csv_columns"
  by (simp add: leaf_record_spec_def csv_columns_def month_names_def)

lemma scrape_table_data_keys:
  assumes "scrape_table_data E soup state state_id fy district block = Inr recs"
  shows "\<forall>r \<in> set recs. map fst r = csv_columns"
proof (cases soup)
  case None
  then show ?thesis using assms by (simp add: scrape_table_data_def)
next
  case (Some doc)
  then have "recs = scrape_spec E doc state state_id fy district block"
    using assms by (simp add: scrape_table_data_eq)
  then show ?thesis
    by (auto simp: scrape_spec_def leaf_record_spec_keys split: option.splits)
qed

lemma is_write_simps [simp]:
  "is_write (Request u) = False"
  "is_write (Sleep k) = False"
  "is_write (Print m) = False"
  "is_write (WriteCsv p c t) = True"
  by (simp_all add: is_write_def)

lemma get_soup_writes:
  "get_soup E url log = (soup, log1) \<Longrightarrow> filter is_write log1 = filter is_write log"
  by (auto simp: get_soup_def split: outcome.splits)

lemma blocks_loop_writes:
  "blocks_loop E state state_id fy district_name block_links all_data log = (res, log1) \<Longrightarrow>
   filter is_write log1 = filter is_write log"
proof (induction block_links arbitrary: all_data log)
  case Nil
  then show ?case by simp
next
  case (Cons link block_links)
  obtain block_name block_url where link: "link = (block_name, block_url)" by (cases link)
  show ?case
    using Cons.prems unfolding link
    by (auto split: prod.splits option.splits sum.splits dest!: get_soup_writes Cons.IH)
qed

lemma districts_loop_writes:
  "districts_loop E state state_id fy district_links all_data log = (res, log1) \<Longrightarrow>
   filter is_write log1 = filter is_write log"
proof (induction district_links arbitrary: all_data log)
  case Nil
  then show ?case by simp
next
  case (Cons link district_links)
  obtain district_name district_url where link: "link = (district_name, district_url)"
    by (cases link)
  show ?case
    using Cons.prems unfolding link
    by (auto split: prod.splits option.splits sum.splits
          dest!: get_soup_writes blocks_loop_writes Cons.IH)
qed

lemma states_loop_writes:
  "states_loop E state_urls all_data log = (res, log1) \<Longrightarrow>
   filter is_write log1 = filter is_write log"
proof (induction state_urls arbitrary: all_data log)
  case Nil
  then show ?case by simp
next
  case (Cons state_url state_urls)
  show ?case
    using Cons.prems
    by (auto split: prod.splits option.splits sum.splits
          dest!: get_soup_writes districts_loop_writes Cons.IH)
qed

lemma keys_ok_append [simp]: "keys_ok (xs @ ys) \<longleftrightarrow> keys_ok xs \<and> keys_ok ys"
  by (auto simp: keys_ok_def)

lemma scrape_table_data_keys_ok:
  "scrape_table_data E soup state state_id fy district block = Inr recs \<Longrightarrow> keys_ok recs"
  using scrape_table_data_keys by (simp add: keys_ok_def)

lemma keys_ok_result_simps [simp]:
  "keys_ok_result (Inl e, log) = True"
  "keys_ok_result (Inr data, log) = keys_ok data"
  by (simp_all add: keys_ok_result_def)

lemma blocks_loop_keys:
  "keys_ok all_data \<Longrightarrow>
   keys_ok_result (blocks_loop E state state_id fy district_name block_links all_data log)"
proof (induction block_links arbitrary: all_data log)
  case Nil
  then show ?case by simp
next
  case (Cons link block_links)
  obtain block_name block_url where link: "link = (block_name, block_url)" by (cases link)
  show ?case
    unfolding link using Cons.prems
    by (auto split: prod.splits option.splits sum.splits
          dest: scrape_table_data_keys_ok intro!: Cons.IH)
qed

lemma districts_loop_keys:
  "keys_ok all_data \<Longrightarrow>
   keys_ok_result (districts_loop E state state_id fy district_links all_data log)"
proof (induction district_links arbitrary: all_data log)
  case Nil
  then show ?case by simp
next
  case (Cons link district_links)
  obtain district_name district_url where link: "link = (district_name, district_url)"
    by (cases link)
  have b: "\<And>bl l a1 l1. blocks_loop E state state_id fy district_name bl all_data l = (Inr a1, l1)
             \<Longrightarrow> keys_ok a1"
    using blocks_loop_keys [OF Cons.prems] by (metis keys_ok_result_simps(2))
  show ?case
    unfolding link
    by (auto split: prod.splits option.splits sum.splits dest: b intro!: Cons.IH Cons.prems)
qed

lemma states_loop_keys:
  "keys_ok all_data \<Longrightarrow> keys_ok_result (states_loop E state_urls all_data log)"
proof (induction state_urls arbitrary: all_data log)
  case Nil
  then show ?case by simp
next
  case (Cons state_url state_urls)
  have d: "\<And>s i f dl l a1 l1. districts_loop E s i f dl all_data l = (Inr a1, l1) \<Longrightarrow> keys_ok a1"
    using districts_loop_keys [OF Cons.prems] by (metis keys_ok_result_simps(2))
  show ?case
    by (auto split: prod.splits option.splits sum.splits dest: d intro!: Cons.IH Cons.prems)
qed

lemma foldl_add_key_known: "set ks \<subseteq> set cols \<Longrightarrow> foldl add_key cols ks = cols"
  by (induction ks) (auto simp: add_key_def)

lemma foldl_add_key_fresh:
  "distinct (cols @ ks) \<Longrightarrow> foldl add_key cols ks = cols @ ks"
  by (induction ks arbitrary: cols) (auto simp: add_key_def)

lemma map_of_own_keys:
  "distinct (map fst d) \<Longrightarrow> map (map_of d) (map fst d) = map (\<lambda>kv. Some (snd kv)) d"
  by (induction d) (auto simp: rev_image_eqI)

lemma distinct_csv_columns: "distinct csv_columns"
  by (simp add: csv_columns_def)

text \<open>
  The frame of a non-empty collection whose records all have the 18 keys: these columns,
  and the values of each record in order.
\<close>

lemma DataFrame_uniform:
  assumes "data \<noteq> []" and "keys_ok data"
  shows "DataFrame data = \<lparr>df_columns = csv_columns, df_values = map (map (\<lambda>kv. Some (snd kv))) data\<rparr>"
proof -
  obtain r rs where data: "data = r # rs" using assms(1) by (cases data) auto
  have r: "map fst r = csv_columns" and rs: "\<forall>x \<in> set rs. map fst x = csv_columns"
    using assms(2) by (auto simp: data keys_ok_def)
  have "set (concat (map (map fst) rs)) \<subseteq> set csv_columns"
    using rs by auto
  then have cols: "foldl add_key [] (concat (map (map fst) data)) = csv_columns"
    using foldl_add_key_fresh [of "[]" csv_columns]
    by (simp add: data r distinct_csv_columns foldl_add_key_known)
  have "map (\<lambda>d. map (map_of d) csv_columns) data = map (map (\<lambda>kv. Some (snd kv))) data"
  proof (rule map_cong [OF refl])
    fix d assume "d \<in> set data"
    then have d: "map fst d = csv_columns" using assms(2) by (simp add: keys_ok_def)
    show "map (map_of d) csv_columns = map (\<lambda>kv. Some (snd kv)) d"
      using map_of_own_keys [of d] distinct_csv_columns by (simp add: d)
  qed
  then show ?thesis
    by (simp add: DataFrame_def cols Let_def)
qed

lemma sample_run:
  "states_loop sample_env [sample_state_url] [] [] = (Inr [sample_record], sample_log)"
  by code_simp

lemma sample_run_no_directory:
  "states_loop sample_env_no_directory [sample_state_url] [] [] = (Inr [sample_record], sample_log)"
  by code_simp

text \<open>
  Claim C5 as stated fails. When \<open>to_csv\<close> raises, as it does with OSError where the
  directory of the output path does not exist, the run on the sample has collected a
  record after all states were processed, yet no file is written, nothing more is printed
  and \<open>main\<close> ends with the exception.
\<close>

theorem main_to_csv_raises:
  "states_loop sample_env_no_directory [sample_state_url] [] [] = (Inr [sample_record], sample_log)
   \<and> [sample_record] \<noteq> []
   \<and> main sample_env_no_directory [sample_state_url]
       = (Inl (Raised ''OSError: Cannot save file into a non-existent directory''), sample_log)
   \<and> filter is_write (snd (main sample_env_no_directory [sample_state_url])) = []"
  by code_simp

text \<open>
  Claim C5, amended. When the loops of \<open>main\<close> have completed, no file was written
  during the crawl and every record has exactly the 18 keys State, State ID, FY, District,
  Block, Panchayat, April, ..., March, in this order. If the collection is non-empty and
  \<open>to_csv\<close> returns, \<open>main\<close> writes exactly one file, at the end: with the encoding
  utf-8, a header row of the 18 columns, and then one row per leaf record, nothing after
  them. If the collection is non-empty and \<open>to_csv\<close> raises, no file is written and
  \<open>main\<close> ends with that exception. If the collection is empty, no file is written.
\<close>

theorem main_output_file:
  assumes "states_loop E state_urls [] [] = (Inr all_data, log)"
  shows "filter is_write log = []
         \<and> (\<forall>r \<in> set all_data. map fst r = csv_columns)
         \<and> (all_data \<noteq> []
              \<and> to_csv_raises E output_file (csv_columns # map (map snd) all_data) = None \<longrightarrow>
            main E state_urls =
              (Inr (), log @ [WriteCsv output_file ''utf-8'' (csv_columns # map (map snd) all_data),
                              Print (''Data saved to '' @ output_file @ '' with ''
                                     @ str_nat (length all_data) @ '' rows.'')]))
         \<and> (\<forall>e. all_data \<noteq> []
              \<and> to_csv_raises E output_file (csv_columns # map (map snd) all_data) = Some e \<longrightarrow>
            main E state_urls = (Inl (Raised e), log))
         \<and> (all_data = [] \<longrightarrow> main E state_urls = (Inr (), log @ [Print ''No data collected.'']))"
proof -
  have w: "filter is_write log = []"
    using states_loop_writes [OF assms] by simp
  have k: "keys_ok all_data"
    using states_loop_keys [of "[]" E state_urls "[]"] assms by (simp add: keys_ok_def)
  show ?thesis
  proof (cases "all_data = []")
    case True
    then show ?thesis using assms w by (simp add: main_def)
  next
    case False
    have "DataFrame all_data
          = \<lparr>df_columns = csv_columns, df_values = map (map (\<lambda>kv. Some (snd kv))) all_data\<rparr>"
      using False k by (rule DataFrame_uniform)
    then show ?thesis
      using assms w k False by (simp add: main_def to_csv_def comp_def keys_ok_def)
  qed
qed

text \<open>
  The run on the sample writes the header and one row; the same run where the directory
  is missing writes nothing; a run whose only state cannot be reached writes nothing.
\<close>

theorem main_output_file_witness:
  "states_loop sample_env [sample_state_url] [] [] = (Inr [sample_record], sample_log)
   \<and> [sample_record] \<noteq> []
   \<and> to_csv_raises sample_env ''put/yourr/output/path/here.csv'' sample_table = None
   \<and> main sample_env [sample_state_url] =
       (Inr (), sample_log @ [WriteCsv ''put/yourr/output/path/here.csv'' ''utf-8'' sample_table,
                              Print ''Data saved to put/yourr/output/path/here.csv with 1 rows.''])
   \<and> to_csv_raises sample_env_no_directory ''put/yourr/output/path/here.csv'' sample_table
       = Some ''OSError: Cannot save file into a non-existent directory''
   \<and> main sample_env_no_directory [sample_state_url]
       = (Inl (Raised ''OSError: Cannot save file into a non-existent directory''), sample_log)
   \<and> states_loop sample_env [''http://h/x''] [] [] =
       (Inr [], [Print ''Processing state: Unknown'', Request ''http://h/x'',
                 Print ''Error fetching http://h/x: Connection refused'',
                 Print ''Failed to fetch state page for Unknown. Skipping.''])
   \<and> main sample_env [''http://h/x''] =
       (Inr (), [Print ''Processing state: Unknown'', Request ''http://h/x'',
                 Print ''Error fetching http://h/x: Connection refused'',
                 Print ''Failed to fetch state page for Unknown. Skipping.'',
                 Print ''No data collected.''])"
proof -
  let ?log2 = "[Print ''Processing state: Unknown'', Request ''http://h/x'',
                 Print ''Error fetching http://h/x: Connection refused'',
                 Print ''Failed to fetch state page for Unknown. Skipping.'']"
  have run2: "states_loop sample_env [''http://h/x''] [] [] = (Inr [], ?log2)"
    by code_simp
  have t: "csv_columns # map (map snd) [sample_record] = sample_table" by code_simp
  have p: "output_file = ''put/yourr/output/path/here.csv''" by (simp add: output_file_def)
  have n: "str_nat (length [sample_record]) = ''1''" by code_simp
  have ne: "[sample_record] \<noteq> []" by simp
  have r1: "to_csv_raises sample_env ''put/yourr/output/path/here.csv'' sample_table = None"
    by (simp add: sample_env_def)
  have r2: "to_csv_raises sample_env_no_directory ''put/yourr/output/path/here.csv'' sample_table
       = Some ''OSError: Cannot save file into a non-existent directory''"
    by (simp add: sample_env_no_directory_def)
  have m1: "main sample_env [sample_state_url] =
       (Inr (), sample_log @ [WriteCsv ''put/yourr/output/path/here.csv'' ''utf-8'' sample_table,
                              Print ''Data saved to put/yourr/output/path/here.csv with 1 rows.''])"
    using main_output_file [OF sample_run, THEN conjunct2, THEN conjunct2, THEN conjunct1]
      t p n r1
    by simp
  have m2: "main sample_env_no_directory [sample_state_url]
       = (Inl (Raised ''OSError: Cannot save file into a non-existent directory''), sample_log)"
    using main_output_file [OF sample_run_no_directory, THEN conjunct2, THEN conjunct2,
        THEN conjunct2, THEN conjunct1] t p r2
    by simp
  have m3: "main sample_env [''http://h/x''] = (Inr (), ?log2 @ [Print ''No data collected.''])"
    using main_output_file [OF run2, THEN conjunct2, THEN conjunct2, THEN conjunct2,
        THEN conjunct2]
    by simp
  show ?thesis
    using sample_run ne r1 m1 r2 m2 run2 m3 by simp
qed

section \<open>Records and their crawl path\<close>

lemma from_block_mono: "n \<le> n' \<Longrightarrow> from_block E n' s i f d bl r \<Longrightarrow> from_block E n s i f d bl r"
  by (auto simp: from_block_def intro: le_trans)

lemma from_district_mono: "n \<le> n' \<Longrightarrow> from_district E n' s i f dl r \<Longrightarrow> from_district E n s i f dl r"
  unfolding from_district_def by (meson le_trans)

lemma from_block_rest:
  assumes "\<forall>r \<in> set new. \<exists>bl \<in> set bls. from_block E n' s i f d bl r" and "n \<le> n'"
  shows "\<forall>r \<in> set new. \<exists>bl \<in> set (x # bls). from_block E n s i f d bl r"
  using assms by (meson from_block_mono list.set_intros(2))

lemma from_district_rest:
  assumes "\<forall>r \<in> set new. \<exists>dl \<in> set dls. from_district E n' s i f dl r" and "n \<le> n'"
  shows "\<forall>r \<in> set new. \<exists>dl \<in> set (x # dls). from_district E n s i f dl r"
  using assms by (meson from_district_mono list.set_intros(2))

lemma scrape_table_data_ancestors:
  assumes "scrape_table_data E (Some soup) state state_id fy district block = Inr recs"
    and "r \<in> set recs"
  shows "ancestor_fields r = [Some state, Some state_id, Some fy, Some district, Some block]"
proof -
  have "recs = scrape_spec E soup state state_id fy district block"
    using assms(1) by (simp add: scrape_table_data_eq)
  then show ?thesis
    using assms(2)
    by (auto simp: scrape_spec_def leaf_record_spec_def ancestor_fields_def split: option.splits)
qed

lemma blocks_loop_from:
  "blocks_loop E state state_id fy district_name block_links all_data log = (Inr all_data1, log1) \<Longrightarrow>
   \<exists>new. all_data1 = all_data @ new
     \<and> (\<forall>r \<in> set new. \<exists>bl \<in> set block_links.
           from_block E (n_requests log) state state_id fy district_name bl r)"
proof (induction block_links arbitrary: all_data log)
  case Nil
  then show ?case by simp
next
  case (Cons link block_links)
  obtain block_name block_url where link: "link = (block_name, block_url)" by (cases link)
  let ?log = "log @ [Print (''Processing block: '' @ block_name @ '' in '' @ district_name
                            @ '', '' @ state)]"
  show ?case
  proof (cases rule: get_soup_cases [of E ?log block_url])
    case failed
    let ?log1 = "?log @ [Request block_url,
                   Print (''Error fetching '' @ block_url @ '': ''
                          @ exception_text (requests_get E (n_requests ?log) block_url)),
                   Print (''Skipping '' @ block_name @ '' due to fetch error.'')]"
    have "blocks_loop E state state_id fy district_name block_links all_data ?log1
          = (Inr all_data1, log1)"
      using Cons.prems failed unfolding link by (simp add: get_soup_failed)
    from Cons.IH [OF this] obtain new where new: "all_data1 = all_data @ new"
      "\<forall>r \<in> set new. \<exists>bl \<in> set block_links.
           from_block E (n_requests ?log1) state state_id fy district_name bl r"
      by blast
    have "\<forall>r \<in> set new. \<exists>bl \<in> set (link # block_links).
           from_block E (n_requests log) state state_id fy district_name bl r"
      by (rule from_block_rest [OF new(2)]) simp
    then show ?thesis using new(1) by blast
  next
    case aborted
    then show ?thesis
      using Cons.prems unfolding link by (simp add: get_soup_aborted)
  next
    case (response soup)
    obtain recs where recs: "scrape_table_data E (Some soup) state state_id fy district_name block_name = Inr recs"
      by (simp add: scrape_table_data_eq)
    let ?log1 = "?log @ [Request block_url, Sleep 1,
                   Print (''Collected data for '' @ str_nat (length recs)
                          @ '' panchayats in '' @ block_name @ ''.'')]"
    have "blocks_loop E state state_id fy district_name block_links (all_data @ recs) ?log1
          = (Inr all_data1, log1)"
      using Cons.prems response recs unfolding link by (simp add: get_soup_response)
    from Cons.IH [OF this] obtain new where new: "all_data1 = (all_data @ recs) @ new"
      "\<forall>r \<in> set new. \<exists>bl \<in> set block_links.
           from_block E (n_requests ?log1) state state_id fy district_name bl r"
      by blast
    have here: "\<forall>r \<in> set recs. from_block E (n_requests log) state state_id fy district_name link r"
      using response recs scrape_table_data_ancestors [OF recs]
      by (auto simp: from_block_def link)
    have rest: "\<forall>r \<in> set new. \<exists>bl \<in> set (link # block_links).
           from_block E (n_requests log) state state_id fy district_name bl r"
      by (rule from_block_rest [OF new(2)]) simp
    have "\<forall>r \<in> set (recs @ new). \<exists>bl \<in> set (link # block_links).
           from_block E (n_requests log) state state_id fy district_name bl r"
      using rest here by auto
    then show ?thesis using new(1) by (metis append.assoc)
  qed
qed

lemma blocks_loop_n_requests:
  "blocks_loop E state state_id fy district_name block_links all_data log = (res, log1) \<Longrightarrow>
   n_requests log \<le> n_requests log1"
proof (induction block_links arbitrary: all_data log)
  case Nil
  then show ?case by simp
next
  case (Cons link block_links)
  obtain block_name block_url where link: "link = (block_name, block_url)" by (cases link)
  show ?case
    using Cons.prems unfolding link
    by (auto split: prod.splits option.splits sum.splits dest!: get_soup_n_requests Cons.IH)
qed

lemma districts_loop_n_requests:
  "districts_loop E state state_id fy district_links all_data log = (res, log1) \<Longrightarrow>
   n_requests log \<le> n_requests log1"
proof (induction district_links arbitrary: all_data log)
  case Nil
  then show ?case by simp
next
  case (Cons link district_links)
  obtain district_name district_url where link: "link = (district_name, district_url)"
    by (cases link)
  show ?case
    using Cons.prems unfolding link
    by (auto split: prod.splits option.splits sum.splits
          dest!: get_soup_n_requests blocks_loop_n_requests Cons.IH)
qed

lemma districts_loop_from:
  "districts_loop E state state_id fy district_links all_data log = (Inr all_data1, log1) \<Longrightarrow>
   \<exists>new. all_data1 = all_data @ new
     \<and> (\<forall>r \<in> set new. \<exists>dl \<in> set district_links.
           from_district E (n_requests log) state state_id fy dl r)"
proof (induction district_links arbitrary: all_data log)
  case Nil
  then show ?case by simp
next
  case (Cons link district_links)
  obtain district_name district_url where link: "link = (district_name, district_url)"
    by (cases link)
  let ?log = "log @ [Print (''Processing district: '' @ district_name @ '' in '' @ state)]"
  show ?case
  proof (cases rule: get_soup_cases [of E ?log district_url])
    case failed
    let ?log1 = "?log @ [Request district_url,
                   Print (''Error fetching '' @ district_url @ '': ''
                          @ exception_text (requests_get E (n_requests ?log) district_url)),
                   Print (''Skipping '' @ district_name @ '' due to fetch error.'')]"
    have "districts_loop E state state_id fy district_links all_data ?log1 = (Inr all_data1, log1)"
      using Cons.prems failed unfolding link by (simp add: get_soup_failed)
    from Cons.IH [OF this] obtain new where new: "all_data1 = all_data @ new"
      "\<forall>r \<in> set new. \<exists>dl \<in> set district_links.
           from_district E (n_requests ?log1) state state_id fy dl r"
      by blast
    have "\<forall>r \<in> set new. \<exists>dl \<in> set (link # district_links).
           from_district E (n_requests log) state state_id fy dl r"
      by (rule from_district_rest [OF new(2)]) simp
    then show ?thesis using new(1) by blast
  next
    case aborted
    then show ?thesis
      using Cons.prems unfolding link by (simp add: get_soup_aborted)
  next
    case (response soup)
    let ?found = "\<lambda>block_links. ?log @ [Request district_url, Sleep 1,
                   Print (''Found '' @ str_nat (length block_links) @ '' blocks in ''
                          @ district_name @ ''.'')]"
    from Cons.prems response obtain block_links where
      bl: "extract_links E (Some soup) = Inr block_links"
      unfolding link by (auto simp: get_soup_response split: sum.splits)
    from Cons.prems response bl obtain all_data2 log2 where
      inner: "blocks_loop E state state_id fy district_name block_links all_data
                (?found block_links) = (Inr all_data2, log2)"
      and rest: "districts_loop E state state_id fy district_links all_data2 log2
                 = (Inr all_data1, log1)"
      unfolding link by (auto simp: get_soup_response split: prod.splits sum.splits)
    from blocks_loop_from [OF inner] obtain new1 where new1: "all_data2 = all_data @ new1"
      "\<forall>r \<in> set new1. \<exists>bl \<in> set block_links.
           from_block E (n_requests (?found block_links)) state state_id fy district_name bl r"
      by blast
    from Cons.IH [OF rest] obtain new2 where new2: "all_data1 = all_data2 @ new2"
      "\<forall>r \<in> set new2. \<exists>dl \<in> set district_links.
           from_district E (n_requests log2) state state_id fy dl r"
      by blast
    have le: "n_requests log \<le> n_requests log2"
      using blocks_loop_n_requests [OF inner] by simp
    have here: "\<forall>r \<in> set new1. from_district E (n_requests log) state state_id fy link r"
      unfolding from_district_def link
      using response bl new1(2) by (intro ballI exI [of _ "n_requests log"] exI [of _ soup]
          exI [of _ block_links]) auto
    have later: "\<forall>r \<in> set new2. \<exists>dl \<in> set (link # district_links).
           from_district E (n_requests log) state state_id fy dl r"
      by (rule from_district_rest [OF new2(2) le])
    have "\<forall>r \<in> set (new1 @ new2). \<exists>dl \<in> set (link # district_links).
           from_district E (n_requests log) state state_id fy dl r"
      using here later by auto
    then show ?thesis using new1(1) new2(1) by (metis append.assoc)
  qed
qed

lemma states_loop_from:
  "states_loop E state_urls all_data log = (Inr all_data1, log1) \<Longrightarrow>
   \<exists>new. all_data1 = all_data @ new
     \<and> (\<forall>r \<in> set new. \<exists>state_url \<in> set state_urls. from_state E state_url r)"
proof (induction state_urls arbitrary: all_data log)
  case Nil
  then show ?case by simp
next
  case (Cons state_url state_urls)
  from Cons.prems obtain state state_id fy where
    ctx: "crawl_context E state_url = Inr (state, state_id, fy)"
    by (auto split: sum.splits)
  let ?log = "log @ [Print (''Processing state: '' @ state)]"
  show ?case
  proof (cases rule: get_soup_cases [of E ?log state_url])
    case failed
    let ?log1 = "?log @ [Request state_url,
                   Print (''Error fetching '' @ state_url @ '': ''
                          @ exception_text (requests_get E (n_requests ?log) state_url)),
                   Print (''Failed to fetch state page for '' @ state @ ''. Skipping.'')]"
    have "states_loop E state_urls all_data ?log1 = (Inr all_data1, log1)"
      using Cons.prems failed ctx by (simp add: get_soup_failed)
    from Cons.IH [OF this] show ?thesis by auto
  next
    case aborted
    then show ?thesis
      using Cons.prems ctx by (simp add: get_soup_aborted)
  next
    case (response soup)
    let ?found = "\<lambda>district_links. ?log @ [Request state_url, Sleep 1,
                   Print (''Found '' @ str_nat (length district_links) @ '' districts in ''
                          @ state @ ''.'')]"
    from Cons.prems response ctx obtain district_links where
      dl: "extract_links E (Some soup) = Inr district_links"
      by (auto simp: get_soup_response split: sum.splits)
    from Cons.prems response ctx dl obtain all_data2 log2 where
      inner: "districts_loop E state state_id fy district_links all_data
                (?found district_links) = (Inr all_data2, log2)"
      and rest: "states_loop E state_urls all_data2 log2 = (Inr all_data1, log1)"
      by (auto simp: get_soup_response split: prod.splits sum.splits)
    from districts_loop_from [OF inner] obtain new1 where new1: "all_data2 = all_data @ new1"
      "\<forall>r \<in> set new1. \<exists>dl \<in> set district_links.
           from_district E (n_requests (?found district_links)) state state_id fy dl r"
      by blast
    from Cons.IH [OF rest] obtain new2 where new2: "all_data1 = all_data2 @ new2"
      "\<forall>r \<in> set new2. \<exists>state_url \<in> set state_urls. from_state E state_url r"
      by blast
    have here: "\<forall>r \<in> set new1. from_state E state_url r"
      unfolding from_state_def
      using response ctx dl new1(2)
      by (intro ballI exI [of _ state] exI [of _ state_id] exI [of _ fy]
          exI [of _ "n_requests log"] exI [of _ soup] exI [of _ district_links]) auto
    have "\<forall>r \<in> set (new1 @ new2). \<exists>u \<in> set (state_url # state_urls). from_state E u r"
      using here new2(2) by auto
    then show ?thesis using new1(1) new2(1) by (metis append.assoc)
  qed
qed

lemma blocks_loop_yield:
  "blocks_loop E state state_id fy district_name block_links all_data log = (Inr all_data1, log1) \<Longrightarrow>
   \<exists>chunks. list_all2 (block_yield E state state_id fy district_name) block_links chunks
     \<and> all_data1 = all_data @ concat chunks"
proof (induction block_links arbitrary: all_data log)
  case Nil
  then show ?case by simp
next
  case (Cons link block_links)
  obtain block_name block_url where link: "link = (block_name, block_url)" by (cases link)
  let ?log = "log @ [Print (''Processing block: '' @ block_name @ '' in '' @ district_name
                            @ '', '' @ state)]"
  show ?case
  proof (cases rule: get_soup_cases [of E ?log block_url])
    case failed
    let ?log1 = "?log @ [Request block_url,
                   Print (''Error fetching '' @ block_url @ '': ''
                          @ exception_text (requests_get E (n_requests ?log) block_url)),
                   Print (''Skipping '' @ block_name @ '' due to fetch error.'')]"
    have "blocks_loop E state state_id fy district_name block_links all_data ?log1
          = (Inr all_data1, log1)"
      using Cons.prems failed unfolding link by (simp add: get_soup_failed)
    from Cons.IH [OF this] obtain chunks where
      chunks: "list_all2 (block_yield E state state_id fy district_name) block_links chunks"
        "all_data1 = all_data @ concat chunks"
      by blast
    have "block_yield E state state_id fy district_name link []"
      using failed by (auto simp: block_yield_def link)
    then have "list_all2 (block_yield E state state_id fy district_name) (link # block_links)
                 ([] # chunks)"
      using chunks(1) by simp
    then show ?thesis using chunks(2) by (metis append_Nil concat.simps(2))
  next
    case aborted
    then show ?thesis
      using Cons.prems unfolding link by (simp add: get_soup_aborted)
  next
    case (response soup)
    obtain recs where recs:
      "scrape_table_data E (Some soup) state state_id fy district_name block_name = Inr recs"
      by (simp add: scrape_table_data_eq)
    let ?log1 = "?log @ [Request block_url, Sleep 1,
                   Print (''Collected data for '' @ str_nat (length recs)
                          @ '' panchayats in '' @ block_name @ ''.'')]"
    have "blocks_loop E state state_id fy district_name block_links (all_data @ recs) ?log1
          = (Inr all_data1, log1)"
      using Cons.prems response recs unfolding link by (simp add: get_soup_response)
    from Cons.IH [OF this] obtain chunks where
      chunks: "list_all2 (block_yield E state state_id fy district_name) block_links chunks"
        "all_data1 = (all_data @ recs) @ concat chunks"
      by blast
    have "block_yield E state state_id fy district_name link recs"
      using response recs by (auto simp: block_yield_def link)
    then have "list_all2 (block_yield E state state_id fy district_name) (link # block_links)
                 (recs # chunks)"
      using chunks(1) by simp
    then show ?thesis using chunks(2) by (metis append.assoc concat.simps(2))
  qed
qed

lemma districts_loop_yield:
  "districts_loop E state state_id fy district_links all_data log = (Inr all_data1, log1) \<Longrightarrow>
   \<exists>chunks. list_all2 (district_yield E state state_id fy) district_links chunks
     \<and> all_data1 = all_data @ concat chunks"
proof (induction district_links arbitrary: all_data log)
  case Nil
  then show ?case by simp
next
  case (Cons link district_links)
  obtain district_name district_url where link: "link = (district_name, district_url)"
    by (cases link)
  let ?log = "log @ [Print (''Processing district: '' @ district_name @ '' in '' @ state)]"
  show ?case
  proof (cases rule: get_soup_cases [of E ?log district_url])
    case failed
    let ?log1 = "?log @ [Request district_url,
                   Print (''Error fetching '' @ district_url @ '': ''
                          @ exception_text (requests_get E (n_requests ?log) district_url)),
                   Print (''Skipping '' @ district_name @ '' due to fetch error.'')]"
    have "districts_loop E state state_id fy district_links all_data ?log1 = (Inr all_data1, log1)"
      using Cons.prems failed unfolding link by (simp add: get_soup_failed)
    from Cons.IH [OF this] obtain chunks where
      chunks: "list_all2 (district_yield E state state_id fy) district_links chunks"
        "all_data1 = all_data @ concat chunks"
      by blast
    have "district_yield E state state_id fy link []"
      using failed by (auto simp: district_yield_def link)
    then have "list_all2 (district_yield E state state_id fy) (link # district_links) ([] # chunks)"
      using chunks(1) by simp
    then show ?thesis using chunks(2) by (metis append_Nil concat.simps(2))
  next
    case aborted
    then show ?thesis
      using Cons.prems unfolding link by (simp add: get_soup_aborted)
  next
    case (response soup)
    let ?found = "\<lambda>block_links. ?log @ [Request district_url, Sleep 1,
                   Print (''Found '' @ str_nat (length block_links) @ '' blocks in ''
                          @ district_name @ ''.'')]"
    from Cons.prems response obtain block_links where
      bl: "extract_links E (Some soup) = Inr block_links"
      unfolding link by (auto simp: get_soup_response split: sum.splits)
    from Cons.prems response bl obtain all_data2 log2 where
      inner: "blocks_loop E state state_id fy district_name block_links all_data
                (?found block_links) = (Inr all_data2, log2)"
      and rest: "districts_loop E state state_id fy district_links all_data2 log2
                 = (Inr all_data1, log1)"
      unfolding link by (auto simp: get_soup_response split: prod.splits sum.splits)
    from blocks_loop_yield [OF inner] obtain bchunks where
      bchunks: "list_all2 (block_yield E state state_id fy district_name) block_links bchunks"
        "all_data2 = all_data @ concat bchunks"
      by blast
    from Cons.IH [OF rest] obtain chunks where
      chunks: "list_all2 (district_yield E state state_id fy) district_links chunks"
        "all_data1 = all_data2 @ concat chunks"
      by blast
    have "district_yield E state state_id fy link (concat bchunks)"
      unfolding district_yield_def link using response bl bchunks(1) by auto
    then have "list_all2 (district_yield E state state_id fy) (link # district_links)
                 (concat bchunks # chunks)"
      using chunks(1) by simp
    then show ?thesis using chunks(2) bchunks(2) by (metis append.assoc concat.simps(2))
  qed
qed

lemma states_loop_yield:
  "states_loop E state_urls all_data log = (Inr all_data1, log1) \<Longrightarrow>
   \<exists>chunks. list_all2 (state_yield E) state_urls chunks \<and> all_data1 = all_data @ concat chunks"
proof (induction state_urls arbitrary: all_data log)
  case Nil
  then show ?case by simp
next
  case (Cons state_url state_urls)
  from Cons.prems obtain state state_id fy where
    ctx: "crawl_context E state_url = Inr (state, state_id, fy)"
    by (auto split: sum.splits)
  let ?log = "log @ [Print (''Processing state: '' @ state)]"
  show ?case
  proof (cases rule: get_soup_cases [of E ?log state_url])
    case failed
    let ?log1 = "?log @ [Request state_url,
                   Print (''Error fetching '' @ state_url @ '': ''
                          @ exception_text (requests_get E (n_requests ?log) state_url)),
                   Print (''Failed to fetch state page for '' @ state @ ''. Skipping.'')]"
    have "states_loop E state_urls all_data ?log1 = (Inr all_data1, log1)"
      using Cons.prems failed ctx by (simp add: get_soup_failed)
    from Cons.IH [OF this] obtain chunks where
      chunks: "list_all2 (state_yield E) state_urls chunks" "all_data1 = all_data @ concat chunks"
      by blast
    have "state_yield E state_url []"
      using failed ctx by (auto simp: state_yield_def)
    then have "list_all2 (state_yield E) (state_url # state_urls) ([] # chunks)"
      using chunks(1) by simp
    then show ?thesis using chunks(2) by (metis append_Nil concat.simps(2))
  next
    case aborted
    then show ?thesis
      using Cons.prems ctx by (simp add: get_soup_aborted)
  next
    case (response soup)
    let ?found = "\<lambda>district_links. ?log @ [Request state_url, Sleep 1,
                   Print (''Found '' @ str_nat (length district_links) @ '' districts in ''
                          @ state @ ''.'')]"
    from Cons.prems response ctx obtain district_links where
      dl: "extract_links E (Some soup) = Inr district_links"
      by (auto simp: get_soup_response split: sum.splits)
    from Cons.prems response ctx dl obtain all_data2 log2 where
      inner: "districts_loop E state state_id fy district_links all_data
                (?found district_links) = (Inr all_data2, log2)"
      and rest: "states_loop E state_urls all_data2 log2 = (Inr all_data1, log1)"
      by (auto simp: get_soup_response split: prod.splits sum.splits)
    from districts_loop_yield [OF inner] obtain dchunks where
      dchunks: "list_all2 (district_yield E state state_id fy) district_links dchunks"
        "all_data2 = all_data @ concat dchunks"
      by blast
    from Cons.IH [OF rest] obtain chunks where
      chunks: "list_all2 (state_yield E) state_urls chunks" "all_data1 = all_data2 @ concat chunks"
      by blast
    have "state_yield E state_url (concat dchunks)"
      unfolding state_yield_def using response ctx dl dchunks(1) by auto
    then have "list_all2 (state_yield E) (state_url # state_urls) (concat dchunks # chunks)"
      using chunks(1) by simp
    then show ?thesis using chunks(2) dchunks(2) by (metis append.assoc concat.simps(2))
  qed
qed

lemma static_web_at: "static_web E \<Longrightarrow> requests_get E n url = requests_get E 0 url"
  by (metis static_web_def)

lemma blocks_loop_static:
  assumes "static_web E"
  shows "blocks_loop E state state_id fy district_name block_links all_data log
           = (Inr all_data1, log1) \<Longrightarrow>
         all_data1 = all_data
           @ concat (map (block_records E state state_id fy district_name) block_links)"
proof (induction block_links arbitrary: all_data log)
  case Nil
  then show ?case by simp
next
  case (Cons link block_links)
  obtain block_name block_url where link: "link = (block_name, block_url)" by (cases link)
  let ?log = "log @ [Print (''Processing block: '' @ block_name @ '' in '' @ district_name
                            @ '', '' @ state)]"
  show ?case
  proof (cases rule: get_soup_cases [of E ?log block_url])
    case failed
    then have "block_records E state state_id fy district_name link = []"
      using static_web_at [OF assms, of "n_requests ?log" block_url]
      by (auto simp: block_records_def link fetch_failed_def split: outcome.splits)
    then show ?thesis
      using Cons.prems failed unfolding link
      by (auto simp: get_soup_failed dest!: Cons.IH)
  next
    case aborted
    then show ?thesis
      using Cons.prems unfolding link by (simp add: get_soup_aborted)
  next
    case (response soup)
    then have "requests_get E 0 block_url = Response soup"
      using static_web_at [OF assms] by metis
    then have "block_records E state state_id fy district_name link
               = scrape_spec E soup state state_id fy district_name block_name"
      by (simp add: block_records_def link scrape_table_data_eq)
    then show ?thesis
      using Cons.prems response unfolding link
      by (auto simp: get_soup_response scrape_table_data_eq dest!: Cons.IH)
  qed
qed

lemma districts_loop_static:
  assumes "static_web E"
  shows "districts_loop E state state_id fy district_links all_data log
           = (Inr all_data1, log1) \<Longrightarrow>
         all_data1 = all_data
           @ concat (map (district_records E state state_id fy) district_links)"
proof (induction district_links arbitrary: all_data log)
  case Nil
  then show ?case by simp
next
  case (Cons link district_links)
  obtain district_name district_url where link: "link = (district_name, district_url)"
    by (cases link)
  let ?log = "log @ [Print (''Processing district: '' @ district_name @ '' in '' @ state)]"
  show ?case
  proof (cases rule: get_soup_cases [of E ?log district_url])
    case failed
    then have "district_records E state state_id fy link = []"
      using static_web_at [OF assms, of "n_requests ?log" district_url]
      by (auto simp: district_records_def link fetch_failed_def split: outcome.splits)
    then show ?thesis
      using Cons.prems failed unfolding link
      by (auto simp: get_soup_failed dest!: Cons.IH)
  next
    case aborted
    then show ?thesis
      using Cons.prems unfolding link by (simp add: get_soup_aborted)
  next
    case (response soup)
    from Cons.prems response obtain block_links where
      bl: "extract_links E (Some soup) = Inr block_links"
      unfolding link by (auto simp: get_soup_response split: sum.splits)
    have "requests_get E 0 district_url = Response soup"
      using response static_web_at [OF assms] by metis
    then have "district_records E state state_id fy link
          = concat (map (block_records E state state_id fy district_name) block_links)"
      using bl by (simp add: district_records_def link)
    then show ?thesis
      using Cons.prems response bl unfolding link
      by (auto simp: get_soup_response split: prod.splits sum.splits
            dest!: Cons.IH blocks_loop_static [OF assms])
  qed
qed

lemma states_loop_static:
  assumes "static_web E"
  shows "states_loop E state_urls all_data log = (Inr all_data1, log1) \<Longrightarrow>
         all_data1 = all_data @ crawl_spec E state_urls"
proof (induction state_urls arbitrary: all_data log)
  case Nil
  then show ?case by (simp add: crawl_spec_def)
next
  case (Cons state_url state_urls)
  from Cons.prems obtain state state_id fy where
    ctx: "crawl_context E state_url = Inr (state, state_id, fy)"
    by (auto split: sum.splits)
  let ?log = "log @ [Print (''Processing state: '' @ state)]"
  show ?case
  proof (cases rule: get_soup_cases [of E ?log state_url])
    case failed
    then have "state_records E state_url = []"
      using static_web_at [OF assms, of "n_requests ?log" state_url] ctx
      by (auto simp: state_records_def fetch_failed_def split: outcome.splits)
    then show ?thesis
      using Cons.prems failed ctx
      by (auto simp: get_soup_failed crawl_spec_def dest!: Cons.IH)
  next
    case aborted
    then show ?thesis
      using Cons.prems ctx by (simp add: get_soup_aborted)
  next
    case (response soup)
    from Cons.prems response ctx obtain district_links where
      dl: "extract_links E (Some soup) = Inr district_links"
      by (auto simp: get_soup_response split: sum.splits)
    have "requests_get E 0 state_url = Response soup"
      using response static_web_at [OF assms] by metis
    then have "state_records E state_url
          = concat (map (district_records E state state_id fy) district_links)"
      using dl ctx by (simp add: state_records_def)
    then show ?thesis
      using Cons.prems response dl ctx
      by (auto simp: get_soup_response crawl_spec_def split: prod.splits sum.splits
            dest!: Cons.IH districts_loop_static [OF assms])
  qed
qed

text \<open>
  Claim C7. Every record of the collection comes from a crawl path: its State, State ID and
  FY are those of a state URL of the list, its District is the name of a link extracted from
  a page fetched at that URL, its Block the name of a link extracted from a page fetched at
  the district link, and the record was scraped from a page fetched at the block link. The
  collection is ordered by insertion: it is the contributions of the state URLs in list
  order, each the contributions of its district links in extraction order, each those of
  its block links in extraction order. When the answers of the network do not change during
  the run, this is the closed form \<open>crawl_spec\<close>.
\<close>

theorem records_follow_crawl_path:
  assumes "states_loop E state_urls [] [] = (Inr all_data, log)"
  shows "(\<forall>r \<in> set all_data. \<exists>state_url \<in> set state_urls. from_state E state_url r)
         \<and> (\<exists>chunks. list_all2 (state_yield E) state_urls chunks \<and> all_data = concat chunks)
         \<and> (static_web E \<longrightarrow> all_data = crawl_spec E state_urls)"
  using states_loop_from [OF assms] states_loop_yield [OF assms] states_loop_static [OF _ assms]
  by auto

text \<open>The run on the sample.\<close>

theorem records_follow_crawl_path_witness:
  "states_loop sample_env [sample_state_url] [] [] = (Inr [sample_record], sample_log)
   \<and> static_web sample_env
   \<and> from_state sample_env sample_state_url sample_record
   \<and> (\<exists>chunks. list_all2 (state_yield sample_env) [sample_state_url] chunks
         \<and> [sample_record] = concat chunks)
   \<and> [sample_record] = crawl_spec sample_env [sample_state_url]"
proof -
  note path = records_follow_crawl_path [OF sample_run]
  have s: "static_web sample_env" by (simp add: static_web_def sample_env_def)
  have a: "from_state sample_env sample_state_url sample_record"
    using path by simp
  have b: "\<exists>chunks. list_all2 (state_yield sample_env) [sample_state_url] chunks
             \<and> [sample_record] = concat chunks"
    using path by blast
  have c: "[sample_record] = crawl_spec sample_env [sample_state_url]"
    using path s by blast
  show ?thesis
    by (intro conjI sample_run s a b c)
qed

section \<open>The two files compared\<close>

lemma get_soup_refactored_eq: "get_soup_refactored E url True log = get_soup E url log"
  by (simp add: get_soup_refactored_def get_soup_def print_if_def split: outcome.splits)

lemma extract_links_rows_refactored_eq:
  "extract_links_rows_refactored E rows links = extract_links_rows E rows links"
  by (induction rows arbitrary: links)
     (simp_all add: BASE_URL_PATH_def base_url_def Let_def and_then_def
        split: sum.splits option.splits)

lemma extract_links_refactored_eq: "extract_links_refactored E soup = extract_links E soup"
  by (simp add: extract_links_refactored_def extract_links_def extract_links_rows_refactored_eq
        split: option.split)

lemma scrape_row_refactored_eq:
  "scrape_row_refactored E cells state state_id fy district block
   = scrape_row E cells state state_id fy district block"
  by (simp add: scrape_row_refactored_def scrape_row_def)

lemma scrape_table_rows_refactored_eq:
  "scrape_table_rows_refactored E rows state state_id fy district block data
   = scrape_table_rows E rows state state_id fy district block data"
  by (induction rows arbitrary: data) (simp_all add: scrape_row_refactored_eq Let_def)

lemma scrape_table_data_refactored_eq:
  "scrape_table_data_refactored E soup state state_id fy district block
   = scrape_table_data E soup state state_id fy district block"
  by (simp add: scrape_table_data_refactored_def scrape_table_data_def
        scrape_table_rows_refactored_eq split: option.split)

lemma blocks_loop_refactored_eq:
  "blocks_loop_refactored E True state state_id fy district_name block_links all_data log
   = blocks_loop E state state_id fy district_name block_links all_data log"
proof (induction block_links arbitrary: all_data log)
  case Nil
  show ?case by simp
next
  case (Cons link block_links)
  obtain block_name block_url where link: "link = (block_name, block_url)" by (cases link)
  show ?case
    unfolding link
    by (simp add: print_if_def get_soup_refactored_eq scrape_table_data_refactored_eq Cons.IH
          split: prod.splits option.splits sum.splits)
qed

lemma districts_loop_refactored_eq:
  "districts_loop_refactored E True state state_id fy district_links all_data log
   = districts_loop E state state_id fy district_links all_data log"
proof (induction district_links arbitrary: all_data log)
  case Nil
  show ?case by simp
next
  case (Cons link district_links)
  obtain district_name district_url where link: "link = (district_name, district_url)"
    by (cases link)
  show ?case
    unfolding link
    by (simp add: print_if_def get_soup_refactored_eq extract_links_refactored_eq
          blocks_loop_refactored_eq Cons.IH split: prod.splits option.splits sum.splits)
qed

text \<open>With \<open>verbose=True\<close>, the loops of the two files have the same results and the same effects.\<close>

lemma states_loop_refactored_eq:
  "states_loop_refactored E True state_urls all_data log = states_loop E state_urls all_data log"
  by (induction state_urls arbitrary: all_data log)
     (simp_all add: print_if_def get_soup_refactored_eq extract_links_refactored_eq
        districts_loop_refactored_eq split: prod.splits option.splits sum.splits)

lemma quiet_simps [simp]:
  "quiet [] = []"
  "quiet (Print m # xs) = quiet xs"
  "quiet (Request u # xs) = Request u # quiet xs"
  "quiet (Sleep k # xs) = Sleep k # quiet xs"
  "quiet (WriteCsv p c t # xs) = WriteCsv p c t # quiet xs"
  "quiet (xs @ ys) = quiet xs @ quiet ys"
  by (simp_all add: quiet_def is_print_def)

lemma quiet_print_if [simp]: "quiet (print_if verbose msg log) = quiet log"
  by (simp add: print_if_def)

lemma n_requests_quiet: "n_requests (quiet log) = n_requests log"
  by (induction log) (auto simp: quiet_def is_print_def n_requests_def is_request_def split: event.splits)

lemma n_requests_quiet_eq: "quiet log' = quiet log \<Longrightarrow> n_requests log' = n_requests log"
  by (metis n_requests_quiet)

lemma same_run_simp [simp]: "same_run (r, l) (r', l') \<longleftrightarrow> r = r' \<and> quiet l = quiet l'"
  by (simp add: same_run_def)

lemma same_run_cases:
  assumes "same_run a b"
  obtains (raised) e l l' where "a = (Inl e, l')" "b = (Inl e, l)" "quiet l' = quiet l"
  | (returned) d l l' where "a = (Inr d, l')" "b = (Inr d, l)" "quiet l' = quiet l"
  using assms by (cases a; cases b; cases "fst a") (auto simp: same_run_def)

lemma soup_cases:
  obtains (raised) e where "s = Inl e"
  | (None) "s = Inr None"
  | (Some) soup where "s = Inr (Some soup)"
  by (cases s) auto

lemma get_soup_refactored_quiet:
  assumes "quiet log' = quiet log"
  shows "fst (get_soup_refactored E url verbose log') = fst (get_soup E url log)
         \<and> quiet (snd (get_soup_refactored E url verbose log')) = quiet (snd (get_soup E url log))"
  using assms n_requests_quiet_eq [OF assms]
  by (simp add: get_soup_refactored_def get_soup_def split: outcome.splits)

lemma blocks_loop_refactored_quiet:
  "quiet log' = quiet log \<Longrightarrow>
   same_run (blocks_loop_refactored E verbose state state_id fy district_name block_links all_data log')
            (blocks_loop E state state_id fy district_name block_links all_data log)"
proof (induction block_links arbitrary: all_data log log')
  case Nil
  then show ?case by simp
next
  case (Cons link block_links)
  obtain block_name block_url where link: "link = (block_name, block_url)" by (cases link)
  let ?p = "''Processing block: '' @ block_name @ '' in '' @ district_name @ '', '' @ state"
  have q: "quiet (print_if verbose ?p log') = quiet (log @ [Print ?p])"
    using Cons.prems by simp
  obtain s1 l1 where g1: "get_soup_refactored E block_url verbose (print_if verbose ?p log') = (s1, l1)"
    by (cases "get_soup_refactored E block_url verbose (print_if verbose ?p log')")
  obtain s2 l2 where g2: "get_soup E block_url (log @ [Print ?p]) = (s2, l2)"
    by (cases "get_soup E block_url (log @ [Print ?p])")
  have same: "s1 = s2" "quiet l1 = quiet l2"
    using get_soup_refactored_quiet [OF q, of E block_url verbose] g1 g2 by simp_all
  show ?case
    unfolding link using same g1 g2
    by (auto simp: scrape_table_data_refactored_eq split: option.splits sum.splits
          intro!: Cons.IH)
qed

lemma districts_loop_refactored_quiet:
  "quiet log' = quiet log \<Longrightarrow>
   same_run (districts_loop_refactored E verbose state state_id fy district_links all_data log')
            (districts_loop E state state_id fy district_links all_data log)"
proof (induction district_links arbitrary: all_data log log')
  case Nil
  then show ?case by simp
next
  case (Cons link district_links)
  obtain district_name district_url where link: "link = (district_name, district_url)"
    by (cases link)
  let ?p = "''Processing district: '' @ district_name @ '' in '' @ state"
  have q: "quiet (print_if verbose ?p log') = quiet (log @ [Print ?p])"
    using Cons.prems by simp
  obtain s1 l1 where g1: "get_soup_refactored E district_url verbose (print_if verbose ?p log') = (s1, l1)"
    by (cases "get_soup_refactored E district_url verbose (print_if verbose ?p log')")
  obtain s2 l2 where g2: "get_soup E district_url (log @ [Print ?p]) = (s2, l2)"
    by (cases "get_soup E district_url (log @ [Print ?p])")
  have same: "s1 = s2" "quiet l1 = quiet l2"
    using get_soup_refactored_quiet [OF q, of E district_url verbose] g1 g2 by simp_all
  show ?case
  proof (cases s2 rule: soup_cases)
    case (raised e)
    then show ?thesis
      unfolding link using same g1 g2 by simp
  next
    case None
    then show ?thesis
      unfolding link using same g1 g2 by (auto intro!: Cons.IH)
  next
    case (Some soup)
    show ?thesis
    proof (cases "extract_links E (Some soup)")
      case (Inl e)
      then show ?thesis
        unfolding link using same g1 g2 Some by (simp add: extract_links_refactored_eq)
    next
      case (Inr block_links)
      let ?f = "''Found '' @ str_nat (length block_links) @ '' blocks in '' @ district_name @ ''.''"
      have "quiet (print_if verbose ?f l1) = quiet (l2 @ [Print ?f])"
        using same by simp
      then have "same_run
          (blocks_loop_refactored E verbose state state_id fy district_name block_links all_data
             (print_if verbose ?f l1))
          (blocks_loop E state state_id fy district_name block_links all_data (l2 @ [Print ?f]))"
        by (rule blocks_loop_refactored_quiet)
      then show ?thesis
      proof (cases rule: same_run_cases)
        case (raised e l l')
        then show ?thesis
          unfolding link using same g1 g2 Some Inr by (simp add: extract_links_refactored_eq)
      next
        case (returned d l l')
        then show ?thesis
          unfolding link using same g1 g2 Some Inr
          by (simp add: extract_links_refactored_eq Cons.IH)
      qed
    qed
  qed
qed

lemma states_loop_refactored_quiet:
  "quiet log' = quiet log \<Longrightarrow>
   same_run (states_loop_refactored E verbose state_urls all_data log')
            (states_loop E state_urls all_data log)"
proof (induction state_urls arbitrary: all_data log log')
  case Nil
  then show ?case by simp
next
  case (Cons state_url state_urls)
  show ?case
  proof (cases "crawl_context E state_url")
    case (Inl e)
    then show ?thesis using Cons.prems by simp
  next
    case (Inr ctx)
    obtain state state_id fy where ctx: "ctx = (state, state_id, fy)" by (cases ctx)
    let ?p = "''Processing state: '' @ state"
    have q: "quiet (print_if verbose ?p log') = quiet (log @ [Print ?p])"
      using Cons.prems by simp
    obtain s1 l1 where g1: "get_soup_refactored E state_url verbose (print_if verbose ?p log') = (s1, l1)"
      by (cases "get_soup_refactored E state_url verbose (print_if verbose ?p log')")
    obtain s2 l2 where g2: "get_soup E state_url (log @ [Print ?p]) = (s2, l2)"
      by (cases "get_soup E state_url (log @ [Print ?p])")
    have same: "s1 = s2" "quiet l1 = quiet l2"
      using get_soup_refactored_quiet [OF q, of E state_url verbose] g1 g2 by simp_all
    show ?thesis
    proof (cases s2 rule: soup_cases)
      case (raised e)
      then show ?thesis
        using same g1 g2 Inr ctx by simp
    next
      case None
      then show ?thesis
        using same g1 g2 Inr ctx by (auto intro!: Cons.IH)
    next
      case (Some soup)
      show ?thesis
      proof (cases "extract_links E (Some soup)")
        case (Inl e)
        then show ?thesis
          using same g1 g2 Some Inr ctx by (simp add: extract_links_refactored_eq)
      next
        case links: (Inr district_links)
        let ?f = "''Found '' @ str_nat (length district_links) @ '' districts in '' @ state @ ''.''"
        have "quiet (print_if verbose ?f l1) = quiet (l2 @ [Print ?f])"
          using same by simp
        then have "same_run
            (districts_loop_refactored E verbose state state_id fy district_links all_data
               (print_if verbose ?f l1))
            (districts_loop E state state_id fy district_links all_data (l2 @ [Print ?f]))"
          by (rule districts_loop_refactored_quiet)
        then show ?thesis
        proof (cases rule: same_run_cases)
          case (raised e l l')
          then show ?thesis
            using same g1 g2 Some Inr ctx links by (simp add: extract_links_refactored_eq)
        next
          case (returned d l l')
          then show ?thesis
            using same g1 g2 Some Inr ctx links
            by (simp add: extract_links_refactored_eq Cons.IH)
        qed
      qed
    qed
  qed
qed

lemma retarget_quiet_loop:
  "filter is_write log = [] \<Longrightarrow> map retarget (quiet log) = quiet log"
  by (induction log) (auto simp: quiet_def retarget_def is_print_def split: event.splits if_splits)

text \<open>
  For either value of \<open>verbose\<close>, the two \<open>main\<close> functions end alike and have the same
  effects apart from printed lines, once the output path of the one is replaced by that of
  the other, provided \<open>to_csv\<close> does the same on the two paths.
\<close>

lemma main_refactored_quiet:
  assumes "\<And>table. to_csv_raises E output_path table = to_csv_raises E output_file table"
  shows "fst (main_refactored E state_urls verbose) = fst (main E state_urls)
   \<and> quiet (snd (main_refactored E state_urls verbose))
       = map retarget (quiet (snd (main E state_urls)))"
proof -
  have "same_run (states_loop_refactored E verbose state_urls [] [])
                 (states_loop E state_urls [] [])"
    by (rule states_loop_refactored_quiet) simp
  then show ?thesis
  proof (cases rule: same_run_cases)
    case (raised e l l')
    have "filter is_write l = []"
      using states_loop_writes [OF raised(2)] by simp
    then show ?thesis
      using raised by (simp add: main_refactored_def main_def retarget_quiet_loop)
  next
    case (returned d l l')
    have "filter is_write l = []"
      using states_loop_writes [OF returned(2)] by simp
    then show ?thesis
      using returned assms
      by (simp add: main_refactored_def main_def retarget_quiet_loop retarget_def Let_def
            split: option.splits)
  qed
qed

text \<open>
  Claim C9. The functions of the two files agree, but the two \<open>main\<close> functions do not
  write the same file: on the sample, lipi-swap.py writes the table to
  \<open>put/yourr/output/path/here.csv\<close> and lipi-swap-refactored.py to
  \<open>put/your/output/path/here.csv\<close>.
\<close>

theorem output_paths_differ:
  "filter is_write (snd (main sample_env [sample_state_url]))
     = [WriteCsv ''put/yourr/output/path/here.csv'' ''utf-8'' sample_table]
   \<and> filter is_write (snd (main_refactored sample_env [sample_state_url] True))
     = [WriteCsv ''put/your/output/path/here.csv'' ''utf-8'' sample_table]"
  by code_simp

end
